theory Spec2Isabelle
  imports Complex_Main
begin

section \<open>Python values used by anki-flashcard-builder.py\<close>

text \<open>
  A Python \<open>str\<close> is a sequence of Unicode code points, so it is modelled as a list of
  natural numbers (the dictionary's Chinese locale puts code points far beyond one byte
  into the definition text). \<open>lit\<close> turns a literal of the source into such a list.
  \<open>bytes\<close> are lists of numbers as well.
\<close>

type_synonym str = "nat list"
type_synonym bytes = "nat list"

definition lit :: "string \<Rightarrow> str" where
  "lit s = map of_char s"

text \<open>
  \<open>str.isspace\<close> for one code point: the code points that CPython's Unicode database
  classes as whitespace, which are the ones \<open>str.strip()\<close> without argument removes.
\<close>

definition isspace :: "nat \<Rightarrow> bool" where
  "isspace c \<longleftrightarrow>
     (9 \<le> c \<and> c \<le> 13) \<or> (28 \<le> c \<and> c \<le> 32) \<or> c = 133 \<or> c = 160 \<or> c = 5760 \<or>
     (8192 \<le> c \<and> c \<le> 8202) \<or> c = 8232 \<or> c = 8233 \<or> c = 8239 \<or> c = 8287 \<or> c = 12288"

definition strip :: "str \<Rightarrow> str" where
  "strip s = rev (dropWhile isspace (rev (dropWhile isspace s)))"

text \<open>\<open>s.rstrip(':')\<close>: every trailing occurrence of the one character is removed.\<close>

definition colon :: nat where
  "colon = 58"

definition rstrip_char :: "nat \<Rightarrow> str \<Rightarrow> str" where
  "rstrip_char c s = rev (dropWhile (\<lambda>x. x = c) (rev s))"

text \<open>\<open>word.replace(' ', '-')\<close>\<close>

definition replace_char :: "nat \<Rightarrow> nat \<Rightarrow> str \<Rightarrow> str" where
  "replace_char old new s = map (\<lambda>x. if x = old then new else x) s"

text \<open>\<open>sep.join(xs)\<close>\<close>

fun join :: "str \<Rightarrow> str list \<Rightarrow> str" where
  "join sep [] = []"
| "join sep [x] = x"
| "join sep (x # y # ys) = x @ sep @ join sep (y # ys)"

text \<open>Truth value of an optional string: \<open>None\<close> and \<open>''\<close> are false.\<close>

fun truthy :: "str option \<Rightarrow> bool" where
  "truthy None = False"
| "truthy (Some s) = (s \<noteq> [])"

subsection \<open>Exceptions\<close>

text \<open>
  The exception classes that the source names or that its statements raise.
  \<open>HTTPError\<close>, \<open>ConnectionError\<close> and \<open>Timeout\<close> are subclasses of
  \<open>requests.exceptions.RequestException\<close>; the constructor \<open>RequestException\<close> stands
  for its other subclasses, \<open>Exception\<close> for any other subclass of Python's
  \<open>Exception\<close> (a \<open>ValueError\<close> of a JSON decoder, for instance).
\<close>

datatype exn =
    HTTPError | ConnectionError | Timeout | RequestException
  | OSError | NameError str | TypeError | KeyError str | Exception

fun is_RequestException :: "exn \<Rightarrow> bool" where
  "is_RequestException HTTPError = True"
| "is_RequestException ConnectionError = True"
| "is_RequestException Timeout = True"
| "is_RequestException RequestException = True"
| "is_RequestException _ = False"

text \<open>Every class above derives from \<open>Exception\<close>, which is what \<open>except Exception\<close> tests.\<close>

fun is_Exception :: "exn \<Rightarrow> bool" where
  "is_Exception _ = True"

subsection \<open>Responses of the remote services\<close>

text \<open>
  A \<open>requests\<close> response: its status code and the part of it the caller reads
  (\<open>.json()\<close>, the parsed \<open>.text\<close>, \<open>.url\<close> or \<open>.content\<close>).
\<close>

record 'a response =
  status_code :: nat
  body :: 'a

text \<open>\<open>response.raise_for_status()\<close> raises for the 4xx and 5xx codes.\<close>

definition raise_for_status :: "'a response \<Rightarrow> exn + unit" where
  "raise_for_status r =
     (if 400 \<le> status_code r \<and> status_code r < 600 then Inl HTTPError else Inr ())"

text \<open>An AnkiConnect reply \<open>{result, error}\<close>; \<open>None\<close> is JSON \<open>null\<close>.\<close>

record 'a reply =
  result :: "'a option"
  error :: "str option"

text \<open>
  One element of the \<open>cardsInfo\<close> result, as far as \<open>main\<close> reads it:
  \<open>card_note\<close> is \<open>note['note']\<close> and \<open>field_value\<close> maps a field name to
  \<open>note['fields'][name]['value']\<close>.
\<close>

record card_info =
  card_note :: int
  field_value :: "str \<rightharpoonup> str"

text \<open>
  What the source asks of the parsed dictionary page: \<open>find_source\<close> is the attribute
  dictionary of \<open>soup.find('source', {'type': 'audio/mpeg'})\<close>, \<open>find_text tag cls\<close> the
  \<open>.text\<close> of \<open>soup.find(tag, {'class': cls})\<close>, \<open>find_all_text tag cls\<close> the \<open>.text\<close> of
  each element of \<open>soup.find_all(tag, {'class': cls})\<close>.
\<close>

record soup =
  find_source :: "(str \<rightharpoonup> str) option"
  find_text :: "str \<Rightarrow> str \<Rightarrow> str option"
  find_all_text :: "str \<Rightarrow> str \<Rightarrow> str list"

text \<open>The dictionary that \<open>get_cambridge_word_info\<close> returns, with its keys
  \<open>audio_url\<close>, \<open>definition\<close> and \<open>examples\<close>.\<close>

record word_info =
  info_audio_url :: "str option"
  info_definition :: str
  info_examples :: "str list"

text \<open>
  The arguments that \<open>download_audio\<close> gives to \<open>urllib3\<close>'s \<open>Retry\<close>, which it mounts on
  the session for both URL schemes.
\<close>

record retry =
  connect :: nat
  backoff_factor :: real

subsection \<open>Effects\<close>

text \<open>
  The requests sent and the files written, in order. Logging and printing are not part
  of the model; the base64 transport encoding of the media data and the MD5 signature
  of the speech request are left out of the recorded request.
\<close>

datatype event =
    FindCards str
  | CardsInfo "int list option"
  | GetPage str
  | GetTts str
  | GetAudio retry str
  | WriteFile str bytes
  | StoreMediaFile str bytes
  | UpdateNoteFields int str str str

text \<open>
  The environment of one run. Each component answers a request (or a file operation)
  given the events that happened before it, so that the same request may be answered
  differently at different moments of a run. \<open>Inl\<close> is an exception raised by the call.
\<close>

record world =
  findCards_resp :: "event list \<Rightarrow> str \<Rightarrow> exn + (exn + int list reply) response"
  cardsInfo_resp :: "event list \<Rightarrow> int list option \<Rightarrow> exn + (exn + card_info list reply) response"
  page_resp :: "event list \<Rightarrow> str \<Rightarrow> exn + soup response"
  tts_resp :: "event list \<Rightarrow> str \<Rightarrow> exn + str response"
  uuid4 :: "event list \<Rightarrow> str"
  audio_resp :: "event list \<Rightarrow> retry \<Rightarrow> str \<Rightarrow> exn + bytes response"
  file_write :: "event list \<Rightarrow> str \<Rightarrow> bytes \<Rightarrow> exn option"
  file_read :: "event list \<Rightarrow> str \<Rightarrow> exn + bytes"
  storeMedia_resp :: "event list \<Rightarrow> str \<Rightarrow> bytes \<Rightarrow> exn + (exn + str reply) response"
  update_resp :: "event list \<Rightarrow> int \<Rightarrow> str \<Rightarrow> str \<Rightarrow> str \<Rightarrow> exn + (exn + unit reply) response"

section \<open>The functions of the script\<close>

subsection \<open>get_cards\<close>

text \<open>
  The handler of \<open>get_cards\<close> formats the variable \<open>url\<close>, which is bound neither in the
  function nor in the module: for the three classes it catches, the handler itself
  raises \<open>NameError\<close> before it can return \<open>None\<close>.
\<close>

definition get_cards_except :: "exn \<Rightarrow> exn + int list option" where
  "get_cards_except e =
     (if e = HTTPError \<or> e = ConnectionError \<or> e = Timeout
      then Inl (NameError (lit ''url''))
      else Inl e)"

definition get_cards :: "world \<Rightarrow> str \<Rightarrow> event list \<Rightarrow> (exn + int list option) \<times> event list" where
  "get_cards W deck_name tr =
     (let query = lit ''deck:'' @ deck_name;
          tr' = tr @ [FindCards query]
      in case findCards_resp W tr query of
           Inl e \<Rightarrow> (get_cards_except e, tr')
         | Inr response \<Rightarrow>
             (case raise_for_status response of
                Inl e \<Rightarrow> (get_cards_except e, tr')
              | Inr _ \<Rightarrow>
                  (case body response of
                     Inl e \<Rightarrow> (get_cards_except e, tr')
                   | Inr response_data \<Rightarrow> (Inr (result response_data), tr'))))"

subsection \<open>get_notes\<close>

definition get_notes ::
  "world \<Rightarrow> int list option \<Rightarrow> event list \<Rightarrow> (exn + card_info list option) \<times> event list" where
  "get_notes W cards tr =
     (let tr' = tr @ [CardsInfo cards]
      in case cardsInfo_resp W tr cards of
           Inl e \<Rightarrow> (Inl e, tr')
         | Inr response \<Rightarrow>
             (case body response of
                Inl e \<Rightarrow> (Inl e, tr')
              | Inr response_data \<Rightarrow> (Inr (result response_data), tr')))"

subsection \<open>add_word_info_to_note\<close>

text \<open>
  The three \<open>isinstance\<close> tests hold by typing here: the identifier is an integer, the
  definition a string or \<open>None\<close>, the examples a list of strings or \<open>None\<close>. The reply's
  \<open>error\<close> only selects the line that is logged; the function returns \<open>None\<close> either way.
\<close>

definition add_word_info_to_note ::
  "world \<Rightarrow> int \<Rightarrow> str \<Rightarrow> str option \<Rightarrow> str list option \<Rightarrow> event list \<Rightarrow> (exn + unit) \<times> event list" where
  "add_word_info_to_note W note_id audio_file_name definition examples tr =
     (let definition' = (case definition of None \<Rightarrow> [] | Some d \<Rightarrow> d);
          examples_text = (case examples of None \<Rightarrow> [] | Some xs \<Rightarrow> join (lit ''<br>'') xs);
          audio = lit ''[sound:'' @ audio_file_name @ lit '']'';
          tr' = tr @ [UpdateNoteFields note_id audio definition' examples_text]
      in case update_resp W tr note_id audio definition' examples_text of
           Inl e \<Rightarrow> (Inl e, tr')
         | Inr response \<Rightarrow>
             (case body response of
                Inl e \<Rightarrow> (Inl e, tr')
              | Inr response_data \<Rightarrow>
                  (if error response_data \<noteq> None then (Inr (), tr') else (Inr (), tr'))))"

subsection \<open>get_cambridge_word_info\<close>

record locale_entry =
  uri :: str
  tag :: str
  cls :: str

definition language_dict :: "str \<rightharpoonup> locale_entry" where
  "language_dict language =
     (if language = lit ''en''
        then Some \<lparr>uri = lit ''english'', tag = lit ''div'', cls = lit ''def ddef_d db''\<rparr>
      else if language = lit ''cn''
        then Some \<lparr>uri = lit ''english-chinese-simplified'', tag = lit ''div'',
                   cls = lit ''tc-bb tb lpb-25 break-cj''\<rparr>
      else None)"

definition get_cambridge_word_info ::
  "world \<Rightarrow> str \<Rightarrow> str \<Rightarrow> event list \<Rightarrow> (exn + word_info option) \<times> event list" where
  "get_cambridge_word_info W word language tr =
     (let formatted_word = replace_char 32 45 word
      in case language_dict language of
           None \<Rightarrow> (Inr None, tr)
         | Some loc \<Rightarrow>
             (let url = lit ''https://dictionary.cambridge.org/dictionary/'' @ uri loc
                          @ lit ''/'' @ formatted_word;
                  tr' = tr @ [GetPage url]
              in case (case page_resp W tr url of
                         Inl e \<Rightarrow> Inl e
                       | Inr response \<Rightarrow>
                           (case raise_for_status response of
                              Inl e \<Rightarrow> Inl e
                            | Inr _ \<Rightarrow> Inr response)) of
                   Inl e \<Rightarrow> (if is_RequestException e then (Inr None, tr') else (Inl e, tr'))
                 | Inr response \<Rightarrow>
                     (let soup = body response;
                          audio_url =
                            (case find_source soup of
                               None \<Rightarrow> None
                             | Some attrs \<Rightarrow>
                                 (case attrs (lit ''src'') of
                                    None \<Rightarrow> None
                                  | Some src \<Rightarrow>
                                      Some (lit ''https://dictionary.cambridge.org'' @ src)));
                          definition =
                            (case find_text soup (tag loc) (cls loc) of
                               Some text \<Rightarrow> rstrip_char colon (strip text)
                             | None \<Rightarrow> lit ''No definition found.'');
                          example_tags = find_all_text soup (lit ''div'') (lit ''examp dexamp'');
                          examples =
                            (if example_tags \<noteq> [] then map strip (take 3 example_tags) else [])
                      in (Inr (Some \<lparr>info_audio_url = audio_url, info_definition = definition,
                                     info_examples = examples\<rparr>), tr'))))"

subsection \<open>get_vocalware_tts_url\<close>

definition get_vocalware_tts_url ::
  "world \<Rightarrow> str \<Rightarrow> event list \<Rightarrow> (exn + str option) \<times> event list" where
  "get_vocalware_tts_url W word tr =
     (let tr' = tr @ [GetTts word]
      in case tts_resp W tr word of
           Inl e \<Rightarrow> (Inl e, tr')
         | Inr response \<Rightarrow>
             (if status_code response = 200 then (Inr (Some (body response)), tr')
              else (Inr None, tr')))"

subsection \<open>download_audio\<close>

definition download_audio_except :: "exn \<Rightarrow> event list \<Rightarrow> (exn + bool) \<times> event list" where
  "download_audio_except e tr = (if is_RequestException e then (Inr False, tr) else (Inl e, tr))"

definition download_audio ::
  "world \<Rightarrow> str \<Rightarrow> str \<Rightarrow> event list \<Rightarrow> (exn + bool) \<times> event list" where
  "download_audio W url file_name tr =
     (let retry = \<lparr>connect = 3, backoff_factor = 0.5\<rparr>;
          tr' = tr @ [GetAudio retry url]
      in case audio_resp W tr retry url of
           Inl e \<Rightarrow> download_audio_except e tr'
         | Inr response \<Rightarrow>
             (case raise_for_status response of
                Inl e \<Rightarrow> download_audio_except e tr'
              | Inr _ \<Rightarrow>
                  (case file_write W tr' file_name (body response) of
                     Some e \<Rightarrow> download_audio_except e tr'
                   | None \<Rightarrow> (Inr True, tr' @ [WriteFile file_name (body response)]))))"

subsection \<open>upload_audio_to_anki\<close>

definition upload_audio_except :: "exn \<Rightarrow> event list \<Rightarrow> (exn + str option) \<times> event list" where
  "upload_audio_except e tr = (if is_Exception e then (Inr None, tr) else (Inl e, tr))"

definition upload_audio_to_anki ::
  "world \<Rightarrow> str \<Rightarrow> event list \<Rightarrow> (exn + str option) \<times> event list" where
  "upload_audio_to_anki W file_name tr =
     (case file_read W tr file_name of
        Inl e \<Rightarrow> upload_audio_except e tr
      | Inr data \<Rightarrow>
          (let tr' = tr @ [StoreMediaFile file_name data]
           in case storeMedia_resp W tr file_name data of
                Inl e \<Rightarrow> upload_audio_except e tr'
              | Inr response \<Rightarrow>
                  (case body response of
                     Inl e \<Rightarrow> upload_audio_except e tr'
                   | Inr response_data \<Rightarrow>
                       (if error response_data \<noteq> None then (Inr None, tr')
                        else (Inr (result response_data), tr')))))"

subsection \<open>main\<close>

text \<open>
  Lines 295 to 300: upload the downloaded file and, when the name the store returns is
  neither \<open>None\<close> nor empty, update the note and add the word to \<open>processed_words\<close>.
\<close>

definition publish_and_update ::
  "world \<Rightarrow> int \<Rightarrow> str \<Rightarrow> str \<Rightarrow> str list \<Rightarrow> str \<Rightarrow> str set \<times> event list
     \<Rightarrow> (exn + str set) \<times> event list" where
  "publish_and_update W note_id word word_definition word_examples unique_filename s =
     (case s of (processed_words, tr) \<Rightarrow>
        (case upload_audio_to_anki W unique_filename tr of
           (Inl e, tr1) \<Rightarrow> (Inl e, tr1)
         | (Inr audio_file_name, tr1) \<Rightarrow>
             (case audio_file_name of
                None \<Rightarrow> (Inr processed_words, tr1)
              | Some name \<Rightarrow>
                  (if name \<noteq> []
                   then (case add_word_info_to_note W note_id name
                                (Some word_definition) (Some word_examples) tr1 of
                           (Inl e, tr2) \<Rightarrow> (Inl e, tr2)
                         | (Inr _, tr2) \<Rightarrow> (Inr (insert word processed_words), tr2))
                   else (Inr processed_words, tr1)))))"

text \<open>
  Lines 291 to 302: with an audio URL that is neither \<open>None\<close> nor empty, download, then
  publish and update.
\<close>

definition fetch_and_publish ::
  "world \<Rightarrow> int \<Rightarrow> str \<Rightarrow> str \<Rightarrow> str list \<Rightarrow> str option \<Rightarrow> str \<Rightarrow> str set \<times> event list
     \<Rightarrow> (exn + str set) \<times> event list" where
  "fetch_and_publish W note_id word word_definition word_examples audio_url' file_name s =
     (case s of (processed_words, tr) \<Rightarrow>
        (case audio_url' of
           None \<Rightarrow> (Inr processed_words, tr)
         | Some url \<Rightarrow>
             (if url \<noteq> []
              then (let unique_filename = file_name @ lit ''-'' @ uuid4 W tr @ lit ''.mp3''
                    in case download_audio W url unique_filename tr of
                         (Inl e, tr1) \<Rightarrow> (Inl e, tr1)
                       | (Inr ok, tr1) \<Rightarrow>
                           (if ok
                            then publish_and_update W note_id word word_definition
                                   word_examples unique_filename (processed_words, tr1)
                            else (Inr processed_words, tr1)))
              else (Inr processed_words, tr))))"

text \<open>\<open>note['fields'].get('Audio', {}).get('value', '')\<close>\<close>

definition audio_field :: "card_info \<Rightarrow> str" where
  "audio_field n = (case field_value n (lit ''Audio'') of None \<Rightarrow> [] | Some v \<Rightarrow> v)"

text \<open>
  The body of the loop of \<open>main\<close>, lines 258 to 302, on the set of processed words and
  the events so far. Subscripting the \<open>None\<close> that \<open>get_cambridge_word_info\<close> returns for
  a failed request raises \<open>TypeError\<close> at line 280.
\<close>

definition loop_body ::
  "world \<Rightarrow> str \<Rightarrow> card_info \<Rightarrow> str set \<times> event list \<Rightarrow> (exn + str set) \<times> event list" where
  "loop_body W LANGUAGE n s =
     (case s of (processed_words, tr) \<Rightarrow>
        (let note_id = card_note n
         in case field_value n (lit ''Word'') of
              None \<Rightarrow> (Inl (KeyError (lit ''Word'')), tr)
            | Some word \<Rightarrow>
                (if strip (audio_field n) \<noteq> [] then (Inr processed_words, tr)
                 else if word \<in> processed_words then (Inr processed_words, tr)
                 else (case get_cambridge_word_info W word LANGUAGE tr of
                         (Inl e, tr1) \<Rightarrow> (Inl e, tr1)
                       | (Inr None, tr1) \<Rightarrow> (Inl TypeError, tr1)
                       | (Inr (Some cambridge_word_info), tr1) \<Rightarrow>
                           (let word_definition = info_definition cambridge_word_info;
                                word_examples = info_examples cambridge_word_info
                            in if \<not> truthy (info_audio_url cambridge_word_info)
                               then (case get_vocalware_tts_url W word tr1 of
                                       (Inl e, tr2) \<Rightarrow> (Inl e, tr2)
                                     | (Inr audio_url', tr2) \<Rightarrow>
                                         fetch_and_publish W note_id word word_definition
                                           word_examples audio_url' (lit ''vocalware'')
                                           (processed_words, tr2))
                               else fetch_and_publish W note_id word word_definition
                                      word_examples (info_audio_url cambridge_word_info)
                                      (lit ''cambridge'') (processed_words, tr1))))))"

text \<open>The \<open>for\<close> loop: an exception in one iteration ends the loop.\<close>

fun for_notes ::
  "world \<Rightarrow> str \<Rightarrow> card_info list \<Rightarrow> str set \<times> event list \<Rightarrow> (exn + str set) \<times> event list" where
  "for_notes W LANGUAGE [] s = (Inr (fst s), snd s)"
| "for_notes W LANGUAGE (n # ns) s =
     (case loop_body W LANGUAGE n s of
        (Inl e, tr) \<Rightarrow> (Inl e, tr)
      | (Inr processed_words, tr) \<Rightarrow> for_notes W LANGUAGE ns (processed_words, tr))"

text \<open>
  \<open>main\<close>; \<open>LANGUAGE\<close> is the value of \<open>args.language\<close>. Iterating over the \<open>None\<close> that a
  reply with a null result gives raises \<open>TypeError\<close>. The model returns the final set of
  processed words, which the source drops.
\<close>

definition main :: "world \<Rightarrow> str \<Rightarrow> str \<Rightarrow> (exn + str set) \<times> event list" where
  "main W LANGUAGE deck_name =
     (case get_cards W deck_name [] of
        (Inl e, tr) \<Rightarrow> (Inl e, tr)
      | (Inr cards, tr) \<Rightarrow>
          (case get_notes W cards tr of
             (Inl e, tr') \<Rightarrow> (Inl e, tr')
           | (Inr None, tr') \<Rightarrow> (Inl TypeError, tr')
           | (Inr (Some notes), tr') \<Rightarrow> for_notes W LANGUAGE notes ({}, tr')))"

section \<open>Example runs\<close>

text \<open>
  A card with a word and the content of its \<open>Audio\<close> field, a dictionary page, and a
  world around them in which the card store lists the given cards, the download and the
  file operations succeed, and the dictionary, the speech service, the media upload and
  the note update answer as given.
\<close>

definition example_note :: "int \<Rightarrow> str \<Rightarrow> str \<Rightarrow> card_info" where
  "example_note i w a =
     \<lparr>card_note = i, field_value = [lit ''Word'' \<mapsto> w, lit ''Audio'' \<mapsto> a]\<rparr>"

definition example_soup :: "(str \<rightharpoonup> str) option \<Rightarrow> soup" where
  "example_soup src =
     \<lparr>find_source = src,
      find_text = (\<lambda>t c. Some (lit '' everywhere:: '')),
      find_all_text = (\<lambda>t c. [lit '' Phones are ubiquitous. ''])\<rparr>"

definition example_world ::
  "card_info list \<Rightarrow> exn + soup response \<Rightarrow> exn + str response
     \<Rightarrow> exn + (exn + str reply) response \<Rightarrow> exn + (exn + unit reply) response \<Rightarrow> world" where
  "example_world notes page tts stored updated =
     \<lparr>findCards_resp = (\<lambda>h q. Inr \<lparr>status_code = 200,
          body = Inr \<lparr>result = Some (map card_note notes), error = None\<rparr>\<rparr>),
      cardsInfo_resp = (\<lambda>h c. Inr \<lparr>status_code = 200,
          body = Inr \<lparr>result = Some notes, error = None\<rparr>\<rparr>),
      page_resp = (\<lambda>h u. page),
      tts_resp = (\<lambda>h w. tts),
      uuid4 = (\<lambda>h. lit ''id''),
      audio_resp = (\<lambda>h r u. Inr \<lparr>status_code = 200, body = [1, 2, 3]\<rparr>),
      file_write = (\<lambda>h f d. None),
      file_read = (\<lambda>h f. Inr [1, 2, 3]),
      storeMedia_resp = (\<lambda>h f d. stored),
      update_resp = (\<lambda>h i a d e. updated)\<rparr>"

definition page_with_audio :: "exn + soup response" where
  "page_with_audio =
     Inr \<lparr>status_code = 200, body = example_soup (Some [lit ''src'' \<mapsto> lit ''/uk.mp3''])\<rparr>"

definition page_without_audio :: "exn + soup response" where
  "page_without_audio = Inr \<lparr>status_code = 200, body = example_soup None\<rparr>"

definition tts_ok :: "exn + str response" where
  "tts_ok = Inr \<lparr>status_code = 200, body = lit ''https://tts/gen.php''\<rparr>"

definition tts_refused :: "exn + str response" where
  "tts_refused = Inr \<lparr>status_code = 403, body = lit ''https://tts/gen.php''\<rparr>"

definition stored_ok :: "exn + (exn + str reply) response" where
  "stored_ok =
     Inr \<lparr>status_code = 200, body = Inr \<lparr>result = Some (lit ''a.mp3''), error = None\<rparr>\<rparr>"

definition updated_ok :: "exn + (exn + unit reply) response" where
  "updated_ok = Inr \<lparr>status_code = 200, body = Inr \<lparr>result = None, error = None\<rparr>\<rparr>"

definition updated_rejected :: "exn + (exn + unit reply) response" where
  "updated_rejected =
     Inr \<lparr>status_code = 200,
          body = Inr \<lparr>result = None, error = Some (lit ''cannot update note'')\<rparr>\<rparr>"

text \<open>
  The worlds of the runs that the theorems below evaluate: the card store unreachable,
  the dictionary unreachable, a dictionary page without audio, a store that rejects
  the update, an audio file that is missing, cards that already have audio, a response that is not
  modified, one word on two cards, both sources without an answer, and a store that
  refuses the upload.
\<close>

definition store_down :: world where
  "store_down = (example_world [] page_with_audio tts_ok stored_ok updated_ok)
     \<lparr>findCards_resp := (\<lambda>h q. Inl ConnectionError)\<rparr>"

definition dictionary_down :: world where
  "dictionary_down =
     example_world [example_note 1 (lit ''cat'') [], example_note 2 (lit ''dog'') []]
       (Inl ConnectionError) tts_ok stored_ok updated_ok"

definition fallback_world :: world where
  "fallback_world =
     example_world [example_note 1 (lit ''ubiquitous'') []]
       page_without_audio tts_ok stored_ok updated_ok"

definition rejecting_world :: world where
  "rejecting_world =
     example_world [example_note 1 (lit ''ubiquitous'') []]
       page_with_audio tts_ok stored_ok updated_rejected"


definition complete_world :: world where
  "complete_world =
     example_world [example_note 1 (lit ''cat'') (lit ''[sound:cat.mp3]''),
                    example_note 2 (lit ''dog'') (lit ''[sound:dog.mp3]'')]
       page_with_audio tts_ok stored_ok updated_ok"

definition twice_world :: world where
  "twice_world =
     example_world [example_note 1 (lit ''cat'') [], example_note 2 (lit ''cat'') []]
       page_with_audio tts_ok stored_ok updated_ok"

definition sources_down :: world where
  "sources_down =
     example_world [example_note 1 (lit ''cat'') [], example_note 2 (lit ''cat'') []]
       (Inl ConnectionError) tts_refused stored_ok updated_ok"


definition store_refusing :: world where
  "store_refusing =
     example_world [example_note 1 (lit ''cat'') []] page_with_audio tts_ok
       (Inr \<lparr>status_code = 200,
             body = Inr \<lparr>result = None, error = Some (lit ''disk full'')\<rparr>\<rparr>)
       updated_ok"

section \<open>Notions used by the statements\<close>

text \<open>
  \<open>update_answered W i tr tr'\<close>: the events \<open>tr'\<close> go beyond \<open>tr\<close>, the last of them
  is the \<open>updateNoteFields\<close> request for note \<open>i\<close>, and the store's response to it
  arrived and was decoded. The \<open>error\<close> of the reply plays no part.
\<close>

definition update_answered :: "world \<Rightarrow> int \<Rightarrow> event list \<Rightarrow> event list \<Rightarrow> bool" where
  "update_answered W i tr tr' \<longleftrightarrow>
     length tr < length tr' \<and>
     (case last tr' of
        UpdateNoteFields j a d e \<Rightarrow>
          j = i \<and> (case update_resp W (butlast tr') i a d e of
                     Inl _ \<Rightarrow> False
                   | Inr response \<Rightarrow> (case body response of Inl _ \<Rightarrow> False | Inr _ \<Rightarrow> True))
      | _ \<Rightarrow> False)"

text \<open>
  \<open>pipeline_path W LANGUAGE i word tr tr'\<close>: from the events \<open>tr\<close>, the lookup of the
  word returned an entry, the entry or else the speech service gave a non-empty audio
  URL, the download of that URL succeeded, the upload returned a non-empty name, and
  \<open>tr'\<close> is what these steps added followed by the \<open>updateNoteFields\<close> request for note
  \<open>i\<close> with that name and with the entry's definition and examples.
\<close>

definition pipeline_path :: "world \<Rightarrow> str \<Rightarrow> int \<Rightarrow> str \<Rightarrow> event list \<Rightarrow> event list \<Rightarrow> bool" where
  "pipeline_path W LANGUAGE i word tr tr' \<longleftrightarrow>
     (\<exists>info t1 url file_name t2 t3 name t4.
        get_cambridge_word_info W word LANGUAGE tr = (Inr (Some info), t1) \<and>
        (if truthy (info_audio_url info)
         then info_audio_url info = Some url \<and> file_name = lit ''cambridge'' \<and> t2 = t1
         else get_vocalware_tts_url W word t1 = (Inr (Some url), t2) \<and> file_name = lit ''vocalware'') \<and>
        url \<noteq> [] \<and>
        download_audio W url (file_name @ lit ''-'' @ uuid4 W t2 @ lit ''.mp3'') t2 = (Inr True, t3) \<and>
        upload_audio_to_anki W (file_name @ lit ''-'' @ uuid4 W t2 @ lit ''.mp3'') t3
          = (Inr (Some name), t4) \<and>
        name \<noteq> [] \<and>
        tr' = t4 @ [UpdateNoteFields i (lit ''[sound:'' @ name @ lit '']'')
                      (info_definition info) (join (lit ''<br>'') (info_examples info))])"

text \<open>The address of the dictionary page for a word.\<close>

definition dictionary_url :: "locale_entry \<Rightarrow> str \<Rightarrow> str" where
  "dictionary_url loc word =
     lit ''https://dictionary.cambridge.org/dictionary/'' @ uri loc @ lit ''/''
       @ replace_char 32 45 word"

text \<open>
  The specification's reading of the trailing colon, for comparison with \<open>rstrip_char\<close>:
  a single trailing colon is removed.
\<close>

definition strip_one_colon :: "str \<Rightarrow> str" where
  "strip_one_colon s = (if s \<noteq> [] \<and> last s = colon then butlast s else s)"





section \<open>Unfolding rules for evaluation\<close>

lemmas example_defs =
  example_note_def example_soup_def example_world_def page_with_audio_def
  page_without_audio_def tts_ok_def tts_refused_def stored_ok_def updated_ok_def
  updated_rejected_def

lemmas script_defs =
  main_def get_cards_def get_cards_except_def get_notes_def loop_body_def audio_field_def
  get_cambridge_word_info_def language_dict_def get_vocalware_tts_url_def
  fetch_and_publish_def download_audio_def download_audio_except_def
  publish_and_update_def upload_audio_to_anki_def upload_audio_except_def
  add_word_info_to_note_def raise_for_status_def Let_def

lemmas str_defs = lit_def strip_def isspace_def rstrip_char_def replace_char_def colon_def

section \<open>Facts about the string operations\<close>

lemma strip_decomp:
  "\<exists>pre post. t = pre @ strip t @ post \<and> (\<forall>c\<in>set pre. isspace c) \<and> (\<forall>c\<in>set post. isspace c)"
proof -
  let ?r = "dropWhile isspace t"
  have 1: "t = takeWhile isspace t @ ?r" by simp
  have 2: "?r = rev (dropWhile isspace (rev ?r)) @ rev (takeWhile isspace (rev ?r))"
    by (metis rev_append rev_rev_ident takeWhile_dropWhile_id)
  have 3: "t = takeWhile isspace t @ strip t @ rev (takeWhile isspace (rev ?r))"
    using 1 2 unfolding strip_def by metis
  have 4: "\<forall>c\<in>set (takeWhile isspace t). isspace c"
    by (auto dest: set_takeWhileD)
  have 5: "\<forall>c\<in>set (rev (takeWhile isspace (rev ?r))). isspace c"
    by (auto dest: set_takeWhileD)
  from 3 4 5 show ?thesis by blast
qed

lemma last_dropWhile: "dropWhile P xs \<noteq> [] \<Longrightarrow> last (dropWhile P xs) = last xs"
  by (induction xs) (auto split: if_splits)

lemma strip_ends:
  assumes "strip t \<noteq> []"
  shows "\<not> isspace (hd (strip t)) \<and> \<not> isspace (last (strip t))"
proof -
  let ?r = "dropWhile isspace t"
  let ?ys = "dropWhile isspace (rev ?r)"
  from assms have ys: "?ys \<noteq> []" by (simp add: strip_def)
  then have r: "?r \<noteq> []" by (cases "?r") auto
  have "last (strip t) = hd ?ys" by (simp add: strip_def last_rev)
  moreover have "\<not> isspace (hd ?ys)" using ys by (rule hd_dropWhile)
  moreover have "hd (strip t) = last ?ys" by (simp add: strip_def hd_rev)
  moreover have "last ?ys = last (rev ?r)" using ys by (rule last_dropWhile)
  moreover have "last (rev ?r) = hd ?r" by (simp add: last_rev)
  moreover have "\<not> isspace (hd ?r)" using r by (rule hd_dropWhile)
  ultimately show ?thesis by simp
qed

lemma takeWhile_eq_replicate: "takeWhile (\<lambda>x. x = c) xs = replicate (length (takeWhile (\<lambda>x. x = c) xs)) c"
  by (induction xs) auto

lemma rstrip_char_decomp: "\<exists>k. s = rstrip_char c s @ replicate k c"
proof -
  let ?p = "\<lambda>x. x = c"
  have "s = rev (dropWhile ?p (rev s)) @ rev (takeWhile ?p (rev s))"
    by (metis rev_append rev_rev_ident takeWhile_dropWhile_id)
  moreover have "rev (takeWhile ?p (rev s)) = replicate (length (takeWhile ?p (rev s))) c"
    by (metis takeWhile_eq_replicate rev_replicate)
  ultimately show ?thesis unfolding rstrip_char_def by metis
qed

lemma rstrip_char_last: "rstrip_char c s \<noteq> [] \<Longrightarrow> last (rstrip_char c s) \<noteq> c"
proof -
  assume a: "rstrip_char c s \<noteq> []"
  then have ne: "dropWhile (\<lambda>x. x = c) (rev s) \<noteq> []" by (simp add: rstrip_char_def)
  have "last (rstrip_char c s) = hd (dropWhile (\<lambda>x. x = c) (rev s))"
    by (simp add: rstrip_char_def last_rev)
  moreover have "\<not> (hd (dropWhile (\<lambda>x. x = c) (rev s)) = c)" using ne by (rule hd_dropWhile)
  ultimately show ?thesis by simp
qed

section \<open>What each function adds to the events\<close>

lemma get_cards_trace:
  "get_cards W d tr = (r, tr1) \<Longrightarrow> tr1 = tr @ [FindCards (lit ''deck:'' @ d)]"
  unfolding get_cards_def Let_def by (auto split: sum.splits)

lemma get_notes_trace:
  "get_notes W cards tr = (r, tr1) \<Longrightarrow> tr1 = tr @ [CardsInfo cards]"
  unfolding get_notes_def Let_def by (auto split: sum.splits)

lemma get_cambridge_shape:
  assumes "get_cambridge_word_info W w L tr = (r, tr1)"
  shows "(language_dict L = None \<and> r = Inr None \<and> tr1 = tr) \<or>
         (\<exists>loc. language_dict L = Some loc \<and> tr1 = tr @ [GetPage (dictionary_url loc w)])"
  using assms unfolding get_cambridge_word_info_def dictionary_url_def Let_def
  by (auto split: option.splits sum.splits if_splits)

lemma tts_shape:
  assumes "get_vocalware_tts_url W w tr = (r, tr1)"
  shows "tr1 = tr @ [GetTts w]"
  using assms unfolding get_vocalware_tts_url_def Let_def
  by (auto split: sum.splits if_splits)

lemma download_shape:
  assumes "download_audio W u f tr = (r, tr1)"
  shows "(r \<noteq> Inr True \<and> tr1 = tr @ [GetAudio \<lparr>connect = 3, backoff_factor = 0.5\<rparr> u]) \<or>
         (\<exists>d. r = Inr True \<and> tr1 = tr @ [GetAudio \<lparr>connect = 3, backoff_factor = 0.5\<rparr> u, WriteFile f d])"
  using assms unfolding download_audio_def download_audio_except_def Let_def
  by (auto split: sum.splits option.splits if_splits)

lemma upload_shape:
  assumes "upload_audio_to_anki W f tr = (r, tr1)"
  shows "(\<exists>x. r = Inr x) \<and> (tr1 = tr \<or> (\<exists>d. tr1 = tr @ [StoreMediaFile f d]))"
  using assms unfolding upload_audio_to_anki_def upload_audio_except_def Let_def
  by (auto split: sum.splits option.splits if_splits)

lemma add_word_shape:
  assumes "add_word_info_to_note W i name (Some d) (Some ex) tr = (r, tr1)"
  shows "tr1 = tr @ [UpdateNoteFields i (lit ''[sound:'' @ name @ lit '']'') d (join (lit ''<br>'') ex)]"
    and "(\<exists>u. r = Inr u) = update_answered W i tr tr1"
proof -
  let ?a = "lit ''[sound:'' @ name @ lit '']''"
  let ?e = "join (lit ''<br>'') ex"
  show "tr1 = tr @ [UpdateNoteFields i ?a d ?e]"
    using assms unfolding add_word_info_to_note_def Let_def
    by (auto split: sum.splits if_splits)
  show "(\<exists>u. r = Inr u) = update_answered W i tr tr1"
  proof (cases "update_resp W tr i ?a d ?e")
    case (Inl e)
    then show ?thesis
      using assms unfolding add_word_info_to_note_def update_answered_def Let_def by auto
  next
    case (Inr resp)
    then show ?thesis
      using assms unfolding add_word_info_to_note_def update_answered_def Let_def
      by (cases "body resp") auto
  qed
qed

lemma update_answered_from:
  "length t0 \<le> length tr \<Longrightarrow> length tr < length tr' \<Longrightarrow>
     update_answered W i t0 tr' = update_answered W i tr tr'"
  unfolding update_answered_def by auto

lemma not_answered_same:
  "length t0 \<le> length tr \<Longrightarrow> tr \<noteq> [] \<Longrightarrow> \<forall>j a b c. last tr \<noteq> UpdateNoteFields j a b c
     \<Longrightarrow> \<not> update_answered W i t0 tr"
  unfolding update_answered_def by (auto split: event.splits)

lemma publish_and_update_ext:
  "publish_and_update W i w d ex f (pw, tr) = (res, tr') \<Longrightarrow> \<exists>rest. tr' = tr @ rest"
proof -
  assume p: "publish_and_update W i w d ex f (pw, tr) = (res, tr')"
  obtain r tr1 where u: "upload_audio_to_anki W f tr = (r, tr1)" by (cases "upload_audio_to_anki W f tr")
  from upload_shape[OF u] obtain x where x: "r = Inr x" and sh: "\<exists>rest. tr1 = tr @ rest" by auto
  show ?thesis
  proof (cases "truthy x")
    case False
    then have "tr' = tr1" using p u x unfolding publish_and_update_def
      by (auto split: option.splits if_splits)
    then show ?thesis using sh by simp
  next
    case True
    then obtain name where name: "x = Some name" "name \<noteq> []" by (cases x) auto
    obtain r2 tr2 where a: "add_word_info_to_note W i name (Some d) (Some ex) tr1 = (r2, tr2)"
      by (cases "add_word_info_to_note W i name (Some d) (Some ex) tr1")
    have "tr' = tr2" using p u x name a unfolding publish_and_update_def
      by (auto split: sum.splits)
    then show ?thesis using add_word_shape(1)[OF a] sh by auto
  qed
qed

lemma fetch_and_publish_ext:
  "fetch_and_publish W i w d ex au fn (pw, tr) = (res, tr') \<Longrightarrow> \<exists>rest. tr' = tr @ rest"
proof -
  assume f: "fetch_and_publish W i w d ex au fn (pw, tr) = (res, tr')"
  show ?thesis
  proof (cases "truthy au")
    case False
    then have "tr' = tr" using f unfolding fetch_and_publish_def
      by (auto split: option.splits if_splits)
    then show ?thesis by simp
  next
    case True
    then obtain url where url: "au = Some url" "url \<noteq> []" by (cases au) auto
    let ?fn = "fn @ lit ''-'' @ uuid4 W tr @ lit ''.mp3''"
    obtain r tr1 where dl: "download_audio W url ?fn tr = (r, tr1)"
      by (cases "download_audio W url ?fn tr")
    from download_shape[OF dl] have sh: "\<exists>rest. tr1 = tr @ rest" by auto
    show ?thesis
    proof (cases "r = Inr True")
      case True
      then have "publish_and_update W i w d ex ?fn (pw, tr1) = (res, tr')"
        using f url dl unfolding fetch_and_publish_def Let_def by simp
      from publish_and_update_ext[OF this] sh show ?thesis by auto
    next
      case False
      then have "tr' = tr1" using f url dl unfolding fetch_and_publish_def Let_def
        by (auto split: sum.splits if_splits)
      then show ?thesis using sh by simp
    qed
  qed
qed

section \<open>When a word enters the set of processed words\<close>

lemma publish_and_update_added:
  assumes p: "publish_and_update W i w d ex f (pw, tr) = (res, tr')"
    and w: "w \<notin> pw"
    and t0: "length t0 \<le> length tr"
    and ne: "tr \<noteq> []"
    and last: "\<forall>j a b c. last tr \<noteq> UpdateNoteFields j a b c"
  shows "(\<exists>pw'. res = Inr pw' \<and> w \<in> pw') = update_answered W i t0 tr'"
    and "update_answered W i t0 tr' \<Longrightarrow> res = Inr (insert w pw)"
proof -
  obtain r tr1 where u: "upload_audio_to_anki W f tr = (r, tr1)" by (cases "upload_audio_to_anki W f tr")
  from upload_shape[OF u] obtain x where x: "r = Inr x"
    and sh: "tr1 = tr \<or> (\<exists>dat. tr1 = tr @ [StoreMediaFile f dat])" by blast
  have na1: "\<not> update_answered W i t0 tr1"
    using sh not_answered_same[OF t0 ne last] unfolding update_answered_def by auto
  have len1: "length t0 \<le> length tr1" using sh t0 by auto
  show "(\<exists>pw'. res = Inr pw' \<and> w \<in> pw') = update_answered W i t0 tr'"
  proof (cases "truthy x")
    case False
    then have "res = Inr pw \<and> tr' = tr1"
      using p u x unfolding publish_and_update_def by (auto split: option.splits if_splits)
    then show ?thesis using na1 w by auto
  next
    case True
    then obtain name where name: "x = Some name" "name \<noteq> []" by (cases x) auto
    obtain r2 tr2 where a: "add_word_info_to_note W i name (Some d) (Some ex) tr1 = (r2, tr2)"
      by (cases "add_word_info_to_note W i name (Some d) (Some ex) tr1")
    note sh2 = add_word_shape[OF a]
    have tr': "tr' = tr2" using p u x name a unfolding publish_and_update_def
      by (auto split: sum.splits)
    have res: "(\<exists>pw'. res = Inr pw' \<and> w \<in> pw') = (\<exists>u. r2 = Inr u)"
      using p u x name a unfolding publish_and_update_def by (auto split: sum.splits)
    have "update_answered W i t0 tr2 = update_answered W i tr1 tr2"
      using len1 sh2(1) by (intro update_answered_from) auto
    then show ?thesis using res sh2(2) tr' by simp
  qed
  show "update_answered W i t0 tr' \<Longrightarrow> res = Inr (insert w pw)"
  proof -
    assume ua: "update_answered W i t0 tr'"
    show ?thesis
    proof (cases "truthy x")
      case False
      then have "res = Inr pw \<and> tr' = tr1"
        using p u x unfolding publish_and_update_def by (auto split: option.splits if_splits)
      then show ?thesis using na1 ua by auto
    next
      case True
      then obtain name where name: "x = Some name" "name \<noteq> []" by (cases x) auto
      obtain r2 tr2 where a: "add_word_info_to_note W i name (Some d) (Some ex) tr1 = (r2, tr2)"
        by (cases "add_word_info_to_note W i name (Some d) (Some ex) tr1")
      note sh2 = add_word_shape[OF a]
      have tr': "tr' = tr2" using p u x name a unfolding publish_and_update_def
        by (auto split: sum.splits)
      have "update_answered W i t0 tr2 = update_answered W i tr1 tr2"
        using len1 sh2(1) by (intro update_answered_from) auto
      then have "\<exists>u. r2 = Inr u" using ua tr' sh2(2) by simp
      then show ?thesis using p u x name a unfolding publish_and_update_def by auto
    qed
  qed
qed

lemma fetch_and_publish_added:
  assumes f: "fetch_and_publish W i w d ex au fn (pw, tr) = (res, tr')"
    and w: "w \<notin> pw"
    and t0: "length t0 \<le> length tr"
    and ne: "tr \<noteq> []"
    and last: "\<forall>j a b c. last tr \<noteq> UpdateNoteFields j a b c"
  shows "(\<exists>pw'. res = Inr pw' \<and> w \<in> pw') = update_answered W i t0 tr'
         \<and> (update_answered W i t0 tr' \<longrightarrow> res = Inr (insert w pw))"
proof (cases "truthy au")
  case False
  then have "res = Inr pw \<and> tr' = tr"
    using f unfolding fetch_and_publish_def by (auto split: option.splits if_splits)
  then show ?thesis using not_answered_same[OF t0 ne last] w by auto
next
  case True
  then obtain url where url: "au = Some url" "url \<noteq> []" by (cases au) auto
  let ?fn = "fn @ lit ''-'' @ uuid4 W tr @ lit ''.mp3''"
  obtain r tr1 where dl: "download_audio W url ?fn tr = (r, tr1)"
    by (cases "download_audio W url ?fn tr")
  from download_shape[OF dl] consider
      (fail) "r \<noteq> Inr True" "tr1 = tr @ [GetAudio \<lparr>connect = 3, backoff_factor = 0.5\<rparr> url]"
    | (ok) dat where "r = Inr True"
        "tr1 = tr @ [GetAudio \<lparr>connect = 3, backoff_factor = 0.5\<rparr> url, WriteFile ?fn dat]"
    by blast
  then show ?thesis
  proof cases
    case fail
    then have "(res = Inr pw \<or> (\<exists>e. res = Inl e)) \<and> tr' = tr1"
      using f url dl unfolding fetch_and_publish_def Let_def
      by (auto split: sum.splits if_splits)
    moreover have "\<not> update_answered W i t0 tr1"
      using fail(2) unfolding update_answered_def by simp
    ultimately show ?thesis using w by auto
  next
    case ok
    then have p: "publish_and_update W i w d ex ?fn (pw, tr1) = (res, tr')"
      using f url dl unfolding fetch_and_publish_def Let_def by simp
    have "length t0 \<le> length tr1" "tr1 \<noteq> []" "\<forall>j a b c. last tr1 \<noteq> UpdateNoteFields j a b c"
      using ok(2) t0 by auto
    from publish_and_update_added[OF p w this] show ?thesis by blast
  qed
qed

lemma loop_body_added:
  assumes word: "field_value n (lit ''Word'') = Some w"
    and w: "w \<notin> pw"
    and l: "loop_body W L n (pw, tr) = (res, tr')"
  shows "(\<exists>pw'. res = Inr pw' \<and> w \<in> pw') = update_answered W (card_note n) tr tr'
         \<and> (update_answered W (card_note n) tr tr' \<longrightarrow> res = Inr (insert w pw))"
proof (cases "strip (audio_field n) \<noteq> []")
  case True
  then have "res = Inr pw \<and> tr' = tr"
    using l word unfolding loop_body_def Let_def by simp
  then show ?thesis using w unfolding update_answered_def by auto
next
  case False
  obtain r tr1 where g: "get_cambridge_word_info W w L tr = (r, tr1)"
    by (cases "get_cambridge_word_info W w L tr")
  from get_cambridge_shape[OF g] consider
      (unsupported) "r = Inr None" "tr1 = tr"
    | (asked) loc where "tr1 = tr @ [GetPage (dictionary_url loc w)]"
    by blast
  then show ?thesis
  proof cases
    case unsupported
    then have "res = Inl TypeError \<and> tr' = tr"
      using l word w False g unfolding loop_body_def Let_def by simp
    then show ?thesis unfolding update_answered_def by auto
  next
    case asked
    have na1: "\<not> update_answered W (card_note n) tr tr1"
      using asked unfolding update_answered_def by simp
    have tr1: "length tr \<le> length tr1" "tr1 \<noteq> []" "\<forall>j a b c. last tr1 \<noteq> UpdateNoteFields j a b c"
      using asked by auto
    show ?thesis
    proof (cases r)
      case (Inl e)
      then have "res = Inl e \<and> tr' = tr1"
        using l word w False g unfolding loop_body_def Let_def by simp
      then show ?thesis using na1 by auto
    next
      case (Inr opt)
      show ?thesis
      proof (cases opt)
        case None
        then have "res = Inl TypeError \<and> tr' = tr1"
          using l word w False g Inr unfolding loop_body_def Let_def by simp
        then show ?thesis using na1 by auto
      next
        case (Some info)
        show ?thesis
        proof (cases "truthy (info_audio_url info)")
          case True
          then have "fetch_and_publish W (card_note n) w (info_definition info)
                (info_examples info) (info_audio_url info) (lit ''cambridge'') (pw, tr1) = (res, tr')"
            using l word w False g Inr Some unfolding loop_body_def Let_def by simp
          from fetch_and_publish_added[OF this w tr1] show ?thesis .
        next
          case noaudio: False
          obtain r2 tr2 where t: "get_vocalware_tts_url W w tr1 = (r2, tr2)"
            by (cases "get_vocalware_tts_url W w tr1")
          have tr2: "tr2 = tr1 @ [GetTts w]" using tts_shape[OF t] .
          show ?thesis
          proof (cases r2)
            case (Inl e)
            then have "res = Inl e \<and> tr' = tr2"
              using l word w False g Inr Some noaudio t unfolding loop_body_def Let_def by simp
            moreover have "\<not> update_answered W (card_note n) tr tr2"
              using tr2 unfolding update_answered_def by simp
            ultimately show ?thesis by auto
          next
            case (Inr au)
            then have "fetch_and_publish W (card_note n) w (info_definition info)
                (info_examples info) au (lit ''vocalware'') (pw, tr2) = (res, tr')"
              using l word w False g \<open>r = Inr opt\<close> Some noaudio t
              unfolding loop_body_def Let_def by simp
            moreover have "length tr \<le> length tr2" "tr2 \<noteq> []"
                "\<forall>j a b c. last tr2 \<noteq> UpdateNoteFields j a b c"
              using tr2 tr1(1) by auto
            ultimately show ?thesis using fetch_and_publish_added w by blast
          qed
        qed
      qed
    qed
  qed
qed

lemma publish_and_update_path:
  assumes p: "publish_and_update W i w d ex f (pw, tr) = (res, tr')"
    and ua: "update_answered W i t0 tr'"
    and t0: "length t0 \<le> length tr"
    and ne: "tr \<noteq> []"
    and last: "\<forall>j a b c. last tr \<noteq> UpdateNoteFields j a b c"
  shows "\<exists>name t4. upload_audio_to_anki W f tr = (Inr (Some name), t4) \<and> name \<noteq> [] \<and>
           tr' = t4 @ [UpdateNoteFields i (lit ''[sound:'' @ name @ lit '']'') d
                         (join (lit ''<br>'') ex)]"
proof -
  obtain r tr1 where u: "upload_audio_to_anki W f tr = (r, tr1)"
    by (cases "upload_audio_to_anki W f tr")
  from upload_shape[OF u] obtain x where x: "r = Inr x"
    and sh: "tr1 = tr \<or> (\<exists>dat. tr1 = tr @ [StoreMediaFile f dat])" by blast
  have na1: "\<not> update_answered W i t0 tr1"
    using sh not_answered_same[OF t0 ne last] unfolding update_answered_def by auto
  show ?thesis
  proof (cases "truthy x")
    case False
    then have "tr' = tr1"
      using p u x unfolding publish_and_update_def by (auto split: option.splits if_splits)
    then show ?thesis using na1 ua by simp
  next
    case True
    then obtain name where name: "x = Some name" "name \<noteq> []" by (cases x) auto
    obtain r2 tr2 where a: "add_word_info_to_note W i name (Some d) (Some ex) tr1 = (r2, tr2)"
      by (cases "add_word_info_to_note W i name (Some d) (Some ex) tr1")
    have "tr' = tr2" using p u x name a unfolding publish_and_update_def
      by (auto split: sum.splits)
    then show ?thesis using add_word_shape(1)[OF a] u x name by simp
  qed
qed

lemma fetch_and_publish_path:
  assumes f: "fetch_and_publish W i w d ex au fn (pw, tr) = (res, tr')"
    and ua: "update_answered W i t0 tr'"
    and t0: "length t0 \<le> length tr"
    and ne: "tr \<noteq> []"
    and last: "\<forall>j a b c. last tr \<noteq> UpdateNoteFields j a b c"
  shows "\<exists>url t3 name t4. au = Some url \<and> url \<noteq> [] \<and>
           download_audio W url (fn @ lit ''-'' @ uuid4 W tr @ lit ''.mp3'') tr = (Inr True, t3) \<and>
           upload_audio_to_anki W (fn @ lit ''-'' @ uuid4 W tr @ lit ''.mp3'') t3
             = (Inr (Some name), t4) \<and>
           name \<noteq> [] \<and>
           tr' = t4 @ [UpdateNoteFields i (lit ''[sound:'' @ name @ lit '']'') d
                         (join (lit ''<br>'') ex)]"
proof (cases "truthy au")
  case False
  then have "tr' = tr"
    using f unfolding fetch_and_publish_def by (auto split: option.splits if_splits)
  then show ?thesis using not_answered_same[OF t0 ne last] ua by simp
next
  case True
  then obtain url where url: "au = Some url" "url \<noteq> []" by (cases au) auto
  let ?fn = "fn @ lit ''-'' @ uuid4 W tr @ lit ''.mp3''"
  obtain r tr1 where dl: "download_audio W url ?fn tr = (r, tr1)"
    by (cases "download_audio W url ?fn tr")
  from download_shape[OF dl] consider
      (fail) "r \<noteq> Inr True" "tr1 = tr @ [GetAudio \<lparr>connect = 3, backoff_factor = 0.5\<rparr> url]"
    | (ok) dat where "r = Inr True"
        "tr1 = tr @ [GetAudio \<lparr>connect = 3, backoff_factor = 0.5\<rparr> url, WriteFile ?fn dat]"
    by blast
  then show ?thesis
  proof cases
    case fail
    then have "tr' = tr1"
      using f url dl unfolding fetch_and_publish_def Let_def
      by (auto split: sum.splits if_splits)
    moreover have "\<not> update_answered W i t0 tr1"
      using fail(2) unfolding update_answered_def by simp
    ultimately show ?thesis using ua by simp
  next
    case ok
    then have p: "publish_and_update W i w d ex ?fn (pw, tr1) = (res, tr')"
      using f url dl unfolding fetch_and_publish_def Let_def by simp
    have "length t0 \<le> length tr1" "tr1 \<noteq> []" "\<forall>j a b c. last tr1 \<noteq> UpdateNoteFields j a b c"
      using ok(2) t0 by auto
    from publish_and_update_path[OF p ua this] url dl ok(1) show ?thesis by auto
  qed
qed

lemma loop_body_path:
  assumes word: "field_value n (lit ''Word'') = Some w"
    and w: "w \<notin> pw"
    and l: "loop_body W L n (pw, tr) = (res, tr')"
    and ua: "update_answered W (card_note n) tr tr'"
  shows "strip (audio_field n) = [] \<and> pipeline_path W L (card_note n) w tr tr'"
proof (cases "strip (audio_field n) \<noteq> []")
  case True
  then have "tr' = tr" using l word unfolding loop_body_def Let_def by simp
  then show ?thesis using ua unfolding update_answered_def by simp
next
  case False
  obtain r tr1 where g: "get_cambridge_word_info W w L tr = (r, tr1)"
    by (cases "get_cambridge_word_info W w L tr")
  from get_cambridge_shape[OF g] consider
      (unsupported) "r = Inr None" "tr1 = tr"
    | (asked) loc where "tr1 = tr @ [GetPage (dictionary_url loc w)]"
    by blast
  then show ?thesis
  proof cases
    case unsupported
    then have "tr' = tr"
      using l word w False g unfolding loop_body_def Let_def by simp
    then show ?thesis using ua unfolding update_answered_def by simp
  next
    case asked
    have na1: "\<not> update_answered W (card_note n) tr tr1"
      using asked unfolding update_answered_def by simp
    have tr1: "length tr \<le> length tr1" "tr1 \<noteq> []" "\<forall>j a b c. last tr1 \<noteq> UpdateNoteFields j a b c"
      using asked by auto
    show ?thesis
    proof (cases r)
      case (Inl e)
      then have "tr' = tr1"
        using l word w False g unfolding loop_body_def Let_def by simp
      then show ?thesis using na1 ua by simp
    next
      case (Inr opt)
      show ?thesis
      proof (cases opt)
        case None
        then have "tr' = tr1"
          using l word w False g Inr unfolding loop_body_def Let_def by simp
        then show ?thesis using na1 ua by simp
      next
        case (Some info)
        have g': "get_cambridge_word_info W w L tr = (Inr (Some info), tr1)"
          using g Inr Some by simp
        show ?thesis
        proof (cases "truthy (info_audio_url info)")
          case True
          then have "fetch_and_publish W (card_note n) w (info_definition info)
                (info_examples info) (info_audio_url info) (lit ''cambridge'') (pw, tr1) = (res, tr')"
            using l word w False g Inr Some unfolding loop_body_def Let_def by simp
          from fetch_and_publish_path[OF this ua tr1] g' True False show ?thesis
            unfolding pipeline_path_def by auto
        next
          case noaudio: False
          obtain r2 tr2 where t: "get_vocalware_tts_url W w tr1 = (r2, tr2)"
            by (cases "get_vocalware_tts_url W w tr1")
          have tr2: "tr2 = tr1 @ [GetTts w]" using tts_shape[OF t] .
          show ?thesis
          proof (cases r2)
            case (Inl e)
            then have "tr' = tr2"
              using l word w False g Inr Some noaudio t unfolding loop_body_def Let_def by simp
            moreover have "\<not> update_answered W (card_note n) tr tr2"
              using tr2 unfolding update_answered_def by simp
            ultimately show ?thesis using ua by simp
          next
            case r2: (Inr au)
            then have f: "fetch_and_publish W (card_note n) w (info_definition info)
                (info_examples info) au (lit ''vocalware'') (pw, tr2) = (res, tr')"
              using l word w False g Inr Some noaudio t
              unfolding loop_body_def Let_def by simp
            have "length tr \<le> length tr2" "tr2 \<noteq> []"
                "\<forall>j a b c. last tr2 \<noteq> UpdateNoteFields j a b c"
              using tr2 tr1(1) by auto
            from fetch_and_publish_path[OF f ua this] g' noaudio t r2 False show ?thesis
              unfolding pipeline_path_def by auto
          qed
        qed
      qed
    qed
  qed
qed

lemma pipeline_path_runs:
  assumes word: "field_value n (lit ''Word'') = Some w"
    and blank: "strip (audio_field n) = []"
    and w: "w \<notin> pw"
    and pp: "pipeline_path W L (card_note n) w tr T"
  shows "snd (loop_body W L n (pw, tr)) = T"
proof -
  from pp obtain info t1 url fn t2 t3 name t4 where
    g: "get_cambridge_word_info W w L tr = (Inr (Some info), t1)" and
    src: "if truthy (info_audio_url info)
          then info_audio_url info = Some url \<and> fn = lit ''cambridge'' \<and> t2 = t1
          else get_vocalware_tts_url W w t1 = (Inr (Some url), t2) \<and> fn = lit ''vocalware''" and
    url: "url \<noteq> []" and
    dl: "download_audio W url (fn @ lit ''-'' @ uuid4 W t2 @ lit ''.mp3'') t2 = (Inr True, t3)" and
    up: "upload_audio_to_anki W (fn @ lit ''-'' @ uuid4 W t2 @ lit ''.mp3'') t3
           = (Inr (Some name), t4)" and
    name: "name \<noteq> []" and
    T: "T = t4 @ [UpdateNoteFields (card_note n) (lit ''[sound:'' @ name @ lit '']'')
                    (info_definition info) (join (lit ''<br>'') (info_examples info))]"
    unfolding pipeline_path_def by blast
  obtain r t5 where a: "add_word_info_to_note W (card_note n) name (Some (info_definition info))
      (Some (info_examples info)) t4 = (r, t5)"
    by (cases "add_word_info_to_note W (card_note n) name (Some (info_definition info))
      (Some (info_examples info)) t4")
  have t5: "t5 = T" using add_word_shape(1)[OF a] T by simp
  show ?thesis
  proof (cases "truthy (info_audio_url info)")
    case True
    with src have s: "info_audio_url info = Some url" "fn = lit ''cambridge''" "t2 = t1" by simp_all
    have "snd (loop_body W L n (pw, tr)) = t5"
      using word blank w g True s url dl up name a
      unfolding loop_body_def fetch_and_publish_def publish_and_update_def Let_def
      by (cases r) simp_all
    then show ?thesis using t5 by simp
  next
    case False
    with src have s: "get_vocalware_tts_url W w t1 = (Inr (Some url), t2)" "fn = lit ''vocalware''"
      by simp_all
    have "snd (loop_body W L n (pw, tr)) = t5"
      using word blank w g False s url dl up name a
      unfolding loop_body_def fetch_and_publish_def publish_and_update_def Let_def
      by (cases r) simp_all
    then show ?thesis using t5 by simp
  qed
qed

lemma publish_and_update_mono:
  "publish_and_update W i w d ex f (pw, tr) = (Inr pw', tr') \<Longrightarrow> pw \<subseteq> pw'"
  unfolding publish_and_update_def
  by (auto split: prod.splits sum.splits option.splits if_splits)

lemma fetch_and_publish_mono:
  "fetch_and_publish W i w d ex au fn (pw, tr) = (Inr pw', tr') \<Longrightarrow> pw \<subseteq> pw'"
  unfolding fetch_and_publish_def Let_def
  by (auto split: prod.splits sum.splits option.splits if_splits dest: publish_and_update_mono)

lemma loop_body_mono:
  "loop_body W L n (pw, tr) = (Inr pw', tr') \<Longrightarrow> pw \<subseteq> pw'"
  unfolding loop_body_def Let_def
  by (auto split: prod.splits sum.splits option.splits if_splits dest: fetch_and_publish_mono)

lemma for_notes_mono:
  "for_notes W L ns (pw, tr) = (Inr pw', tr') \<Longrightarrow> pw \<subseteq> pw'"
proof (induction ns arbitrary: pw tr)
  case Nil
  then show ?case by simp
next
  case (Cons n ns)
  obtain r t where l: "loop_body W L n (pw, tr) = (r, t)" by (cases "loop_body W L n (pw, tr)")
  show ?case
  proof (cases r)
    case (Inl e)
    then show ?thesis using Cons.prems l by simp
  next
    case (Inr p)
    then have "for_notes W L ns (p, t) = (Inr pw', tr')" using Cons.prems l by simp
    then have "p \<subseteq> pw'" by (rule Cons.IH)
    moreover have "pw \<subseteq> p" using l Inr loop_body_mono by blast
    ultimately show ?thesis by blast
  qed
qed

section \<open>Cards that are skipped or looked up\<close>

lemma loop_body_has_audio:
  "strip (audio_field n) \<noteq> [] \<Longrightarrow>
     loop_body W L n (pw, tr) = (Inr pw, tr) \<or>
     loop_body W L n (pw, tr) = (Inl (KeyError (lit ''Word'')), tr)"
  unfolding loop_body_def Let_def by (auto split: option.splits)

lemma for_notes_has_audio:
  "\<forall>n\<in>set ns. strip (audio_field n) \<noteq> [] \<Longrightarrow>
     for_notes W L ns (pw, tr) = (Inr pw, tr) \<or>
     for_notes W L ns (pw, tr) = (Inl (KeyError (lit ''Word'')), tr)"
proof (induction ns)
  case Nil
  then show ?case by simp
next
  case (Cons n ns)
  then have "strip (audio_field n) \<noteq> []" by simp
  from loop_body_has_audio[OF this, of W L pw tr] Cons show ?case by auto
qed

lemma loop_body_asks_dictionary:
  assumes word: "field_value n (lit ''Word'') = Some w"
    and blank: "strip (audio_field n) = []"
    and w: "w \<notin> pw"
    and lang: "language_dict L = Some loc"
  shows "\<exists>rest. snd (loop_body W L n (pw, tr)) = tr @ GetPage (dictionary_url loc w) # rest"
proof -
  obtain r tr1 where g: "get_cambridge_word_info W w L tr = (r, tr1)"
    by (cases "get_cambridge_word_info W w L tr")
  from get_cambridge_shape[OF g] lang have tr1: "tr1 = tr @ [GetPage (dictionary_url loc w)]"
    by auto
  show ?thesis
  proof (cases r)
    case (Inl e)
    then have "snd (loop_body W L n (pw, tr)) = tr1"
      using word blank w g unfolding loop_body_def Let_def by simp
    then show ?thesis using tr1 by simp
  next
    case (Inr opt)
    show ?thesis
    proof (cases opt)
      case None
      then have "snd (loop_body W L n (pw, tr)) = tr1"
        using word blank w g Inr unfolding loop_body_def Let_def by simp
      then show ?thesis using tr1 by simp
    next
      case (Some info)
      show ?thesis
      proof (cases "truthy (info_audio_url info)")
        case True
        obtain res tr' where f: "fetch_and_publish W (card_note n) w (info_definition info)
              (info_examples info) (info_audio_url info) (lit ''cambridge'') (pw, tr1) = (res, tr')"
          by (cases "fetch_and_publish W (card_note n) w (info_definition info)
              (info_examples info) (info_audio_url info) (lit ''cambridge'') (pw, tr1)")
        then have "snd (loop_body W L n (pw, tr)) = tr'"
          using word blank w g Inr Some True unfolding loop_body_def Let_def by simp
        then show ?thesis using fetch_and_publish_ext[OF f] tr1 by auto
      next
        case noaudio: False
        obtain r2 tr2 where t: "get_vocalware_tts_url W w tr1 = (r2, tr2)"
          by (cases "get_vocalware_tts_url W w tr1")
        have tr2: "tr2 = tr1 @ [GetTts w]" using tts_shape[OF t] .
        show ?thesis
        proof (cases r2)
          case (Inl e)
          then have "snd (loop_body W L n (pw, tr)) = tr2"
            using word blank w g Inr Some noaudio t unfolding loop_body_def Let_def by simp
          then show ?thesis using tr1 tr2 by simp
        next
          case r2: (Inr au)
          obtain res tr' where f: "fetch_and_publish W (card_note n) w (info_definition info)
                (info_examples info) au (lit ''vocalware'') (pw, tr2) = (res, tr')"
            by (cases "fetch_and_publish W (card_note n) w (info_definition info)
                (info_examples info) au (lit ''vocalware'') (pw, tr2)")
          then have "snd (loop_body W L n (pw, tr)) = tr'"
            using word blank w g Inr Some noaudio t r2 unfolding loop_body_def Let_def by simp
          then show ?thesis using fetch_and_publish_ext[OF f] tr1 tr2 by auto
        qed
      qed
    qed
  qed
qed

section \<open>The retrying client\<close>


section \<open>The claims\<close>

subsection \<open>C1: the fallback keeps the dictionary's definition and examples\<close>

text \<open>
  Claim C1, as stated, fails: with a dictionary page that has a definition and an
  example but no audio, and a speech service that answers, the note is updated with the
  page's definition and example, not with two empty strings.
\<close>

theorem fallback_definition_counterexample:
  "last (snd (main fallback_world (lit ''en'') (lit ''Test'')))
     = UpdateNoteFields 1 (lit ''[sound:a.mp3]'') (lit ''everywhere'') (lit ''Phones are ubiquitous.'')
   \<and> last (snd (main fallback_world (lit ''en'') (lit ''Test'')))
     \<noteq> UpdateNoteFields 1 (lit ''[sound:a.mp3]'') [] []"
  by (simp add: fallback_world_def script_defs example_defs str_defs)

text \<open>
  Claim C1, amended: when the dictionary entry has no audio URL, the speech service
  returns a non-empty URL, and the download and the upload succeed, the body of the loop
  ends with the \<open>updateNoteFields\<close> request whose \<open>Definition\<close> is the definition that
  the dictionary lookup returned and whose \<open>Extra information\<close> is the lookup's examples
  joined with \<open><br>\<close>; only the audio comes from the speech service.
\<close>

theorem fallback_writes_dictionary_text:
  assumes "field_value n (lit ''Word'') = Some word"
    and "strip (audio_field n) = []"
    and "word \<notin> processed_words"
    and "get_cambridge_word_info W word LANGUAGE tr = (Inr (Some info), tr1)"
    and "\<not> truthy (info_audio_url info)"
    and "get_vocalware_tts_url W word tr1 = (Inr (Some url), tr2)"
    and "url \<noteq> []"
    and "download_audio W url (lit ''vocalware'' @ lit ''-'' @ uuid4 W tr2 @ lit ''.mp3'') tr2
           = (Inr True, tr3)"
    and "upload_audio_to_anki W (lit ''vocalware'' @ lit ''-'' @ uuid4 W tr2 @ lit ''.mp3'') tr3
           = (Inr (Some name), tr4)"
    and "name \<noteq> []"
  shows "snd (loop_body W LANGUAGE n (processed_words, tr))
           = tr4 @ [UpdateNoteFields (card_note n) (lit ''[sound:'' @ name @ lit '']'')
                      (info_definition info) (join (lit ''<br>'') (info_examples info))]"
proof -
  obtain r tr5 where a: "add_word_info_to_note W (card_note n) name (Some (info_definition info))
      (Some (info_examples info)) tr4 = (r, tr5)"
    by (cases "add_word_info_to_note W (card_note n) name (Some (info_definition info))
      (Some (info_examples info)) tr4")
  have "snd (loop_body W LANGUAGE n (processed_words, tr)) = tr5"
    using assms a unfolding loop_body_def fetch_and_publish_def publish_and_update_def Let_def
    by (cases r) simp_all
  then show ?thesis using add_word_shape(1)[OF a] by simp
qed

text \<open>
  The amended claim C1 on the example run: the update carries the page's definition and
  example.
\<close>

theorem fallback_writes_dictionary_text_witness:
  "snd (loop_body fallback_world (lit ''en'') (example_note 1 (lit ''ubiquitous'') []) ({}, []))
     = [GetPage (lit ''https://dictionary.cambridge.org/dictionary/english/ubiquitous''),
        GetTts (lit ''ubiquitous''),
        GetAudio \<lparr>connect = 3, backoff_factor = 0.5\<rparr> (lit ''https://tts/gen.php''),
        WriteFile (lit ''vocalware-id.mp3'') [1, 2, 3],
        StoreMediaFile (lit ''vocalware-id.mp3'') [1, 2, 3],
        UpdateNoteFields 1 (lit ''[sound:a.mp3]'') (lit ''everywhere'')
          (lit ''Phones are ubiquitous.'')]"
proof -
  let ?n = "example_note 1 (lit ''ubiquitous'') []"
  let ?w = "lit ''ubiquitous''"
  let ?info = "\<lparr>info_audio_url = None, info_definition = lit ''everywhere'',
                 info_examples = [lit ''Phones are ubiquitous.'']\<rparr>"
  let ?t1 = "[GetPage (lit ''https://dictionary.cambridge.org/dictionary/english/ubiquitous'')]"
  let ?t2 = "?t1 @ [GetTts ?w]"
  let ?t3 = "?t2 @ [GetAudio \<lparr>connect = 3, backoff_factor = 0.5\<rparr> (lit ''https://tts/gen.php''),
                    WriteFile (lit ''vocalware-id.mp3'') [1, 2, 3]]"
  let ?t4 = "?t3 @ [StoreMediaFile (lit ''vocalware-id.mp3'') [1, 2, 3]]"
  have a: "field_value ?n (lit ''Word'') = Some ?w" by (simp add: example_defs str_defs)
  have b: "strip (audio_field ?n) = []" by (simp add: audio_field_def example_defs str_defs)
  have c: "?w \<notin> {}" by simp
  have d: "get_cambridge_word_info fallback_world ?w (lit ''en'') [] = (Inr (Some ?info), ?t1)"
    by (simp add: fallback_world_def script_defs example_defs str_defs)
  have e: "\<not> truthy (info_audio_url ?info)" by simp
  have f: "get_vocalware_tts_url fallback_world ?w ?t1 = (Inr (Some (lit ''https://tts/gen.php'')), ?t2)"
    by (simp add: fallback_world_def script_defs example_defs)
  have g: "lit ''https://tts/gen.php'' \<noteq> []" by (simp add: lit_def)
  have h: "download_audio fallback_world (lit ''https://tts/gen.php'')
      (lit ''vocalware'' @ lit ''-'' @ uuid4 fallback_world ?t2 @ lit ''.mp3'') ?t2 = (Inr True, ?t3)"
    by (simp add: fallback_world_def script_defs example_defs str_defs)
  have i: "upload_audio_to_anki fallback_world
      (lit ''vocalware'' @ lit ''-'' @ uuid4 fallback_world ?t2 @ lit ''.mp3'') ?t3
        = (Inr (Some (lit ''a.mp3'')), ?t4)"
    by (simp add: fallback_world_def script_defs example_defs str_defs)
  have j: "lit ''a.mp3'' \<noteq> []" by (simp add: lit_def)
  from fallback_writes_dictionary_text[OF a b c d e f g h i j] show ?thesis
    by (simp add: example_defs str_defs)
qed

subsection \<open>C2: a failed dictionary request\<close>

text \<open>
  Claim C2 against the code: with two cards and an unreachable dictionary,
  \<open>get_cambridge_word_info\<close> returns \<open>None\<close> for the first word, and \<open>main\<close> then raises
  \<open>TypeError\<close> where it subscripts that \<open>None\<close>: the speech service is never asked and
  the second card is never reached.
\<close>

theorem lookup_failure_aborts_batch:
  "get_cambridge_word_info dictionary_down (lit ''cat'') (lit ''en'') []
     = (Inr None, [GetPage (lit ''https://dictionary.cambridge.org/dictionary/english/cat'')])
   \<and> main dictionary_down (lit ''en'') (lit ''Test'')
     = (Inl TypeError,
        [FindCards (lit ''deck:Test''), CardsInfo (Some [1, 2]),
         GetPage (lit ''https://dictionary.cambridge.org/dictionary/english/cat'')])"
  by (simp add: dictionary_down_def script_defs example_defs str_defs)

subsection \<open>C3: a failed card listing\<close>

text \<open>
  Claim C3 against the code: when the card listing fails with \<open>ConnectionError\<close>, the
  handler of \<open>get_cards\<close> raises \<open>NameError\<close> for the unbound name \<open>url\<close>, and the run
  ends with that exception after the one request.
\<close>

theorem get_cards_connection_failure_raises:
  "main store_down (lit ''en'') (lit ''Test'')
     = (Inl (NameError (lit ''url'')), [FindCards (lit ''deck:Test'')])"
  by (simp add: store_down_def script_defs example_defs str_defs)

subsection \<open>C4: when a word is marked as processed\<close>

text \<open>
  Claim C4, as stated, fails: the store answers the update with a non-null \<open>error\<close>,
  and the word is in the set of processed words at the end of the run all the same.
\<close>

theorem update_rejected_counterexample:
  "update_resp rejecting_world
       [FindCards (lit ''deck:Test''), CardsInfo (Some [1]),
        GetPage (lit ''https://dictionary.cambridge.org/dictionary/english/ubiquitous''),
        GetAudio \<lparr>connect = 3, backoff_factor = 0.5\<rparr> (lit ''https://dictionary.cambridge.org/uk.mp3''),
        WriteFile (lit ''cambridge-id.mp3'') [1, 2, 3],
        StoreMediaFile (lit ''cambridge-id.mp3'') [1, 2, 3]]
       1 (lit ''[sound:a.mp3]'') (lit ''everywhere'') (lit ''Phones are ubiquitous.'')
     = Inr \<lparr>status_code = 200,
            body = Inr \<lparr>result = None, error = Some (lit ''cannot update note'')\<rparr>\<rparr>
   \<and> fst (main rejecting_world (lit ''en'') (lit ''Test'')) = Inr {lit ''ubiquitous''}"
  by (simp add: rejecting_world_def script_defs example_defs str_defs)

text \<open>
  Claim C4, amended: for a card whose word is not yet in the set, the body of the loop
  returns a set that contains the word exactly when the card's \<open>Audio\<close> field was blank,
  the lookup returned an entry, one of the two sources gave a non-empty audio URL, the
  download succeeded, the upload returned a non-empty file name, and the
  \<open>updateNoteFields\<close> request for that card was then sent and the store's response to it
  arrived and was decoded; and whenever the steps before the update succeed, the events
  of the body are those steps followed by the update request. Whether the reply carries
  an \<open>error\<close> makes no difference.
\<close>

theorem processed_iff_update_answered:
  assumes "field_value n (lit ''Word'') = Some word"
    and "word \<notin> processed_words"
    and "loop_body W LANGUAGE n (processed_words, tr) = (res, tr')"
  shows "(\<exists>pw. res = Inr pw \<and> word \<in> pw)
           = (strip (audio_field n) = [] \<and>
              pipeline_path W LANGUAGE (card_note n) word tr tr' \<and>
              update_answered W (card_note n) tr tr')
         \<and> (\<forall>T. strip (audio_field n) = [] \<and> pipeline_path W LANGUAGE (card_note n) word tr T
                \<longrightarrow> tr' = T)"
proof -
  have "\<forall>T. strip (audio_field n) = [] \<and> pipeline_path W LANGUAGE (card_note n) word tr T
                \<longrightarrow> tr' = T"
    using pipeline_path_runs[OF assms(1) _ assms(2)] assms(3) by fastforce
  then show ?thesis using loop_body_added[OF assms] loop_body_path[OF assms] by blast
qed

text \<open>
  The amended claim C4 on the run with the rejected update: the word was added, so the
  card was blank, the steps up to the update succeeded, and the update counts as
  answered although the reply carries an error.
\<close>

theorem processed_iff_update_answered_witness:
  "strip (audio_field (example_note 1 (lit ''ubiquitous'') [])) = []
   \<and> pipeline_path rejecting_world (lit ''en'') 1 (lit ''ubiquitous'') []
     [GetPage (lit ''https://dictionary.cambridge.org/dictionary/english/ubiquitous''),
      GetAudio \<lparr>connect = 3, backoff_factor = 0.5\<rparr> (lit ''https://dictionary.cambridge.org/uk.mp3''),
      WriteFile (lit ''cambridge-id.mp3'') [1, 2, 3],
      StoreMediaFile (lit ''cambridge-id.mp3'') [1, 2, 3],
      UpdateNoteFields 1 (lit ''[sound:a.mp3]'') (lit ''everywhere'') (lit ''Phones are ubiquitous.'')]
   \<and> update_answered rejecting_world 1 []
     [GetPage (lit ''https://dictionary.cambridge.org/dictionary/english/ubiquitous''),
      GetAudio \<lparr>connect = 3, backoff_factor = 0.5\<rparr> (lit ''https://dictionary.cambridge.org/uk.mp3''),
      WriteFile (lit ''cambridge-id.mp3'') [1, 2, 3],
      StoreMediaFile (lit ''cambridge-id.mp3'') [1, 2, 3],
      UpdateNoteFields 1 (lit ''[sound:a.mp3]'') (lit ''everywhere'') (lit ''Phones are ubiquitous.'')]"
proof -
  let ?n = "example_note 1 (lit ''ubiquitous'') []"
  have a: "field_value ?n (lit ''Word'') = Some (lit ''ubiquitous'')"
    by (simp add: example_defs str_defs)
  have b: "lit ''ubiquitous'' \<notin> {}" by simp
  have c: "loop_body rejecting_world (lit ''en'') ?n ({}, [])
     = (Inr {lit ''ubiquitous''},
        [GetPage (lit ''https://dictionary.cambridge.org/dictionary/english/ubiquitous''),
         GetAudio \<lparr>connect = 3, backoff_factor = 0.5\<rparr> (lit ''https://dictionary.cambridge.org/uk.mp3''),
         WriteFile (lit ''cambridge-id.mp3'') [1, 2, 3],
         StoreMediaFile (lit ''cambridge-id.mp3'') [1, 2, 3],
         UpdateNoteFields 1 (lit ''[sound:a.mp3]'') (lit ''everywhere'') (lit ''Phones are ubiquitous.'')])"
    by (simp add: rejecting_world_def script_defs example_defs str_defs)
  have d: "card_note ?n = 1" by (simp add: example_defs)
  from processed_iff_update_answered[OF a b c] show ?thesis unfolding d by blast
qed

subsection \<open>C5: cards that already have audio\<close>

text \<open>
  Claim C5: when every card that the store returns has non-whitespace content in its
  \<open>Audio\<close> field, the events of the whole run are the card listing and the detail
  request and nothing else: no lookup, no speech request, no download, no upload and
  no update.
\<close>

theorem all_audio_present_no_calls:
  assumes "get_cards W deck_name [] = (Inr cards, tr1)"
    and "get_notes W cards tr1 = (Inr (Some notes), tr2)"
    and "\<forall>n\<in>set notes. strip (audio_field n) \<noteq> []"
  shows "snd (main W LANGUAGE deck_name) = [FindCards (lit ''deck:'' @ deck_name), CardsInfo cards]"
proof -
  have "tr2 = [FindCards (lit ''deck:'' @ deck_name), CardsInfo cards]"
    using get_cards_trace[OF assms(1)] get_notes_trace[OF assms(2)] by simp
  moreover have "snd (main W LANGUAGE deck_name) = tr2"
    using assms(1,2) for_notes_has_audio[OF assms(3), of W LANGUAGE "{}" tr2]
    unfolding main_def by auto
  ultimately show ?thesis by simp
qed

text \<open>
  Claim C5 on a deck of two cards that both have audio.
\<close>

theorem all_audio_present_no_calls_witness:
  "snd (main complete_world (lit ''en'') (lit ''Test''))
     = [FindCards (lit ''deck:'' @ lit ''Test''), CardsInfo (Some [1, 2])]"
proof -
  let ?notes = "[example_note 1 (lit ''cat'') (lit ''[sound:cat.mp3]''),
                 example_note 2 (lit ''dog'') (lit ''[sound:dog.mp3]'')]"
  have a: "get_cards complete_world (lit ''Test'') []
      = (Inr (Some [1, 2]), [FindCards (lit ''deck:'' @ lit ''Test'')])"
    by (simp add: complete_world_def script_defs example_defs)
  have b: "get_notes complete_world (Some [1, 2]) [FindCards (lit ''deck:'' @ lit ''Test'')]
      = (Inr (Some ?notes), [FindCards (lit ''deck:'' @ lit ''Test''), CardsInfo (Some [1, 2])])"
    by (simp add: complete_world_def script_defs example_defs)
  have c: "\<forall>n\<in>set ?notes. strip (audio_field n) \<noteq> []"
    by (simp add: audio_field_def example_defs str_defs)
  from all_audio_present_no_calls[OF a b c] show ?thesis .
qed

subsection \<open>C6: a word on two cards\<close>

text \<open>
  Claim C6: when the body of the loop has sent the update for a card with word \<open>w\<close>
  and the store has answered it, then, after any cards in between that did not end the
  run, the body of the loop on another card with the same word returns the set and the
  events unchanged: no request of any kind and no update.
\<close>

theorem duplicate_word_skipped:
  assumes "field_value n1 (lit ''Word'') = Some w"
    and "field_value n2 (lit ''Word'') = Some w"
    and "loop_body W L n1 (pw, tr) = (res1, tr1)"
    and "update_answered W (card_note n1) tr tr1"
    and "res1 = Inr pw1"
    and "for_notes W L between (pw1, tr1) = (Inr pw2, tr2)"
  shows "loop_body W L n2 (pw2, tr2) = (Inr pw2, tr2)"
proof -
  have "w \<in> pw1"
  proof (cases "w \<in> pw")
    case True
    then show ?thesis using loop_body_mono assms(3,5) by blast
  next
    case False
    from loop_body_added[OF assms(1) False assms(3)] assms(4,5) show ?thesis by auto
  qed
  then have "w \<in> pw2" using for_notes_mono[OF assms(6)] by blast
  then show ?thesis using assms(2) unfolding loop_body_def Let_def by simp
qed

text \<open>
  Claim C6 on two cards with the word cat: the second one changes nothing.
\<close>

theorem duplicate_word_skipped_witness:
  "loop_body twice_world (lit ''en'') (example_note 2 (lit ''cat'') [])
     ({lit ''cat''},
      [GetPage (lit ''https://dictionary.cambridge.org/dictionary/english/cat''),
       GetAudio \<lparr>connect = 3, backoff_factor = 0.5\<rparr> (lit ''https://dictionary.cambridge.org/uk.mp3''),
       WriteFile (lit ''cambridge-id.mp3'') [1, 2, 3],
       StoreMediaFile (lit ''cambridge-id.mp3'') [1, 2, 3],
       UpdateNoteFields 1 (lit ''[sound:a.mp3]'') (lit ''everywhere'') (lit ''Phones are ubiquitous.'')])
   = (Inr {lit ''cat''},
      [GetPage (lit ''https://dictionary.cambridge.org/dictionary/english/cat''),
       GetAudio \<lparr>connect = 3, backoff_factor = 0.5\<rparr> (lit ''https://dictionary.cambridge.org/uk.mp3''),
       WriteFile (lit ''cambridge-id.mp3'') [1, 2, 3],
       StoreMediaFile (lit ''cambridge-id.mp3'') [1, 2, 3],
       UpdateNoteFields 1 (lit ''[sound:a.mp3]'') (lit ''everywhere'') (lit ''Phones are ubiquitous.'')])"
proof -
  let ?n1 = "example_note 1 (lit ''cat'') []"
  let ?n2 = "example_note 2 (lit ''cat'') []"
  let ?T = "[GetPage (lit ''https://dictionary.cambridge.org/dictionary/english/cat''),
       GetAudio \<lparr>connect = 3, backoff_factor = 0.5\<rparr> (lit ''https://dictionary.cambridge.org/uk.mp3''),
       WriteFile (lit ''cambridge-id.mp3'') [1, 2, 3],
       StoreMediaFile (lit ''cambridge-id.mp3'') [1, 2, 3],
       UpdateNoteFields 1 (lit ''[sound:a.mp3]'') (lit ''everywhere'') (lit ''Phones are ubiquitous.'')]"
  have a: "field_value ?n1 (lit ''Word'') = Some (lit ''cat'')" by (simp add: example_defs str_defs)
  have b: "field_value ?n2 (lit ''Word'') = Some (lit ''cat'')" by (simp add: example_defs str_defs)
  have c: "loop_body twice_world (lit ''en'') ?n1 ({}, []) = (Inr {lit ''cat''}, ?T)"
    by (simp add: twice_world_def script_defs example_defs str_defs)
  have d: "update_answered twice_world (card_note ?n1) [] ?T"
    by (simp add: update_answered_def twice_world_def example_defs str_defs)
  have e: "(Inr {lit ''cat''} :: exn + str set) = Inr {lit ''cat''}" by simp
  have f: "for_notes twice_world (lit ''en'') [] ({lit ''cat''}, ?T) = (Inr {lit ''cat''}, ?T)"
    by simp
  from duplicate_word_skipped[OF a b c d e f] show ?thesis .
qed

subsection \<open>C7: no audio from either source\<close>

text \<open>
  Claim C7 against the code: two cards bear the word cat, the dictionary request
  raises \<open>ConnectionError\<close> and the speech service answers 403, so neither source
  yields an audio URL. The lookup returns \<open>None\<close>, and \<open>main\<close> raises \<open>TypeError\<close> where
  it subscripts that \<open>None\<close>: the run ends after the one dictionary request, and the
  second card with the same word never attempts the pipeline.
\<close>

theorem no_audio_aborts_batch:
  "get_cambridge_word_info sources_down (lit ''cat'') (lit ''en'') []
     = (Inr None, [GetPage (lit ''https://dictionary.cambridge.org/dictionary/english/cat'')])
   \<and> get_vocalware_tts_url sources_down (lit ''cat'') [] = (Inr None, [GetTts (lit ''cat'')])
   \<and> main sources_down (lit ''en'') (lit ''Test'')
     = (Inl TypeError,
        [FindCards (lit ''deck:Test''), CardsInfo (Some [1, 2]),
         GetPage (lit ''https://dictionary.cambridge.org/dictionary/english/cat'')])"
  by (simp add: sources_down_def script_defs example_defs str_defs)

text \<open>
  On the path where the lookup returns an entry without audio URL and the speech service
  returns no URL, the body of the loop does leave the set of processed words unchanged,
  its only events are the two requests, and the next card with the same word asks the
  dictionary again.
\<close>

lemma entry_without_audio_no_update:
  assumes "field_value n (lit ''Word'') = Some w"
    and "strip (audio_field n) = []"
    and "w \<notin> pw"
    and "get_cambridge_word_info W w L tr = (Inr (Some info), tr1)"
    and "\<not> truthy (info_audio_url info)"
    and "get_vocalware_tts_url W w tr1 = (Inr u, tr2)"
    and "\<not> truthy u"
    and "field_value n' (lit ''Word'') = Some w"
    and "strip (audio_field n') = []"
  shows "loop_body W L n (pw, tr) = (Inr pw, tr2) \<and>
         (\<exists>loc. language_dict L = Some loc \<and>
            tr2 = tr @ [GetPage (dictionary_url loc w), GetTts w] \<and>
            (\<exists>rest. snd (loop_body W L n' (pw, tr2))
               = tr2 @ GetPage (dictionary_url loc w) # rest))"
proof -
  have 1: "loop_body W L n (pw, tr) = (Inr pw, tr2)"
    using assms(1-7) unfolding loop_body_def fetch_and_publish_def Let_def
    by (cases u) simp_all
  from get_cambridge_shape[OF assms(4)] obtain loc where
    loc: "language_dict L = Some loc" "tr1 = tr @ [GetPage (dictionary_url loc w)]" by auto
  have 2: "tr2 = tr @ [GetPage (dictionary_url loc w), GetTts w]"
    using tts_shape[OF assms(6)] loc(2) by simp
  from loop_body_asks_dictionary[OF assms(8,9,3) loc(1)] 1 2 loc(1) show ?thesis by blast
qed

subsection \<open>C8: the definition that the lookup returns\<close>

text \<open>
  Claim C8, as stated, fails: for a definition block whose text ends in two colons the
  lookup removes both, where the claim keeps one.
\<close>

theorem single_colon_counterexample:
  "fst (get_cambridge_word_info fallback_world (lit ''ubiquitous'') (lit ''en'') [])
     = Inr (Some \<lparr>info_audio_url = None, info_definition = lit ''everywhere'',
                  info_examples = [lit ''Phones are ubiquitous.'']\<rparr>)
   \<and> find_text (example_soup None) (lit ''div'') (lit ''def ddef_d db'') = Some (lit '' everywhere:: '')
   \<and> strip_one_colon (strip (lit '' everywhere:: '')) = lit ''everywhere:''
   \<and> lit ''everywhere'' \<noteq> lit ''everywhere:''"
  by (simp add: fallback_world_def strip_one_colon_def script_defs example_defs str_defs)

text \<open>
  Claim C8, amended: for a supported language and a page that was fetched without an
  error status, the lookup returns an entry; its definition is the literal
  \<open>No definition found.\<close> when the block is absent, and otherwise the block's text
  without its surrounding whitespace and without any of its trailing colons: the text
  is whitespace, then the definition, then some number of colons, then whitespace, the
  stripped text neither starts nor ends with whitespace, and the definition does not end
  with a colon.
\<close>

theorem lookup_definition:
  assumes "language_dict language = Some loc"
    and "page_resp W tr (lit ''https://dictionary.cambridge.org/dictionary/'' @ uri loc
           @ lit ''/'' @ replace_char 32 45 word) = Inr response"
    and "raise_for_status response = Inr ()"
  shows "\<exists>info tr'. get_cambridge_word_info W word language tr = (Inr (Some info), tr') \<and>
      (case find_text (body response) (tag loc) (cls loc) of
         None \<Rightarrow> info_definition info = lit ''No definition found.''
       | Some text \<Rightarrow>
           (\<exists>pre post k. text = pre @ info_definition info @ replicate k colon @ post
              \<and> (\<forall>c\<in>set pre. isspace c) \<and> (\<forall>c\<in>set post. isspace c)
              \<and> info_definition info @ replicate k colon = strip text
              \<and> (strip text = [] \<or> \<not> isspace (hd (strip text)) \<and> \<not> isspace (last (strip text)))
              \<and> (info_definition info = [] \<or> last (info_definition info) \<noteq> colon)))"
proof (cases "find_text (body response) (tag loc) (cls loc)")
  case None
  with assms show ?thesis by (simp add: get_cambridge_word_info_def Let_def)
next
  case (Some t)
  obtain pre post where d: "t = pre @ strip t @ post"
      "\<forall>c\<in>set pre. isspace c" "\<forall>c\<in>set post. isspace c"
    using strip_decomp by blast
  obtain k where k: "strip t = rstrip_char colon (strip t) @ replicate k colon"
    using rstrip_char_decomp by blast
  have e: "strip t = [] \<or> \<not> isspace (hd (strip t)) \<and> \<not> isspace (last (strip t))"
    using strip_ends by blast
  have l: "rstrip_char colon (strip t) = [] \<or> last (rstrip_char colon (strip t)) \<noteq> colon"
    using rstrip_char_last by blast
  have g: "\<exists>tr'. get_cambridge_word_info W word language tr
      = (Inr (Some \<lparr>info_audio_url =
            (case find_source (body response) of None \<Rightarrow> None
             | Some attrs \<Rightarrow> (case attrs (lit ''src'') of None \<Rightarrow> None
                 | Some src \<Rightarrow> Some (lit ''https://dictionary.cambridge.org'' @ src))),
          info_definition = rstrip_char colon (strip t),
          info_examples =
            (if find_all_text (body response) (lit ''div'') (lit ''examp dexamp'') \<noteq> []
             then map strip (take 3 (find_all_text (body response) (lit ''div'') (lit ''examp dexamp'')))
             else [])\<rparr>), tr')"
    using assms Some by (simp add: get_cambridge_word_info_def Let_def)
  then obtain tr' info where
    i: "get_cambridge_word_info W word language tr = (Inr (Some info), tr')"
       "info_definition info = rstrip_char colon (strip t)"
    by force
  have "t = pre @ info_definition info @ replicate k colon @ post"
    using d(1) k i(2) by (metis append_assoc)
  moreover have "info_definition info @ replicate k colon = strip t" using k i(2) by simp
  ultimately show ?thesis using Some i d(2,3) e l by auto
qed

text \<open>
  The amended claim C8 on the page whose definition block reads
  \<open>" everywhere:: "\<close>.
\<close>

theorem lookup_definition_witness:
  "\<exists>info tr'. get_cambridge_word_info fallback_world (lit ''ubiquitous'') (lit ''en'') []
       = (Inr (Some info), tr') \<and>
     (\<exists>pre post k. lit '' everywhere:: '' = pre @ info_definition info @ replicate k colon @ post
        \<and> (\<forall>c\<in>set pre. isspace c) \<and> (\<forall>c\<in>set post. isspace c)
        \<and> (info_definition info = [] \<or> last (info_definition info) \<noteq> colon))"
proof -
  let ?loc = "\<lparr>uri = lit ''english'', tag = lit ''div'', cls = lit ''def ddef_d db''\<rparr>"
  let ?resp = "\<lparr>status_code = 200, body = example_soup None\<rparr>"
  have a: "language_dict (lit ''en'') = Some ?loc" by (simp add: language_dict_def)
  have b: "page_resp fallback_world [] (lit ''https://dictionary.cambridge.org/dictionary/'' @ uri ?loc
           @ lit ''/'' @ replace_char 32 45 (lit ''ubiquitous'')) = Inr ?resp"
    by (simp add: fallback_world_def example_world_def page_without_audio_def)
  have c: "raise_for_status ?resp = Inr ()" by (simp add: raise_for_status_def)
  have d: "find_text (body ?resp) (tag ?loc) (cls ?loc) = Some (lit '' everywhere:: '')"
    by (simp add: example_soup_def)
  from lookup_definition[OF a b c] show ?thesis unfolding d by auto
qed

subsection \<open>C9: retries and an error status of the audio download\<close>




subsection \<open>C10: the upload never raises\<close>

text \<open>
  Claim C10: \<open>upload_audio_to_anki\<close> always returns and never raises; it sends at most
  the one upload request; an unreadable file, an exception of the request or of the
  decoding, and an \<open>error\<close> in the store's reply each give \<open>None\<close>; and when its
  result is \<open>None\<close> or empty, lines 295 to 300 of \<open>main\<close> leave the set of processed
  words as it was and send no update.
\<close>

theorem publish_never_raises:
  "\<exists>r tr1. upload_audio_to_anki W f tr = (Inr r, tr1)
     \<and> (tr1 = tr \<or> (\<exists>data. tr1 = tr @ [StoreMediaFile f data]))
     \<and> ((\<exists>e. file_read W tr f = Inl e) \<longrightarrow> r = None)
     \<and> (\<forall>data. file_read W tr f = Inr data \<longrightarrow>
           ((\<exists>e. storeMedia_resp W tr f data = Inl e) \<longrightarrow> r = None) \<and>
           (\<forall>response. storeMedia_resp W tr f data = Inr response \<longrightarrow>
              ((\<exists>e. body response = Inl e) \<longrightarrow> r = None) \<and>
              (\<forall>response_data. body response = Inr response_data \<longrightarrow>
                 error response_data \<noteq> None \<longrightarrow> r = None)))
     \<and> (\<not> truthy r \<longrightarrow>
           publish_and_update W note_id word word_definition word_examples f (processed_words, tr)
             = (Inr processed_words, tr1))"
proof -
  obtain r0 tr1 where u: "upload_audio_to_anki W f tr = (r0, tr1)"
    by (cases "upload_audio_to_anki W f tr")
  from upload_shape[OF u] obtain r where r: "r0 = Inr r"
    and sh: "tr1 = tr \<or> (\<exists>data. tr1 = tr @ [StoreMediaFile f data])" by blast
  have a: "(\<exists>e. file_read W tr f = Inl e) \<longrightarrow> r = None"
    using u r unfolding upload_audio_to_anki_def upload_audio_except_def by auto
  have b: "\<forall>data. file_read W tr f = Inr data \<longrightarrow>
           ((\<exists>e. storeMedia_resp W tr f data = Inl e) \<longrightarrow> r = None) \<and>
           (\<forall>response. storeMedia_resp W tr f data = Inr response \<longrightarrow>
              ((\<exists>e. body response = Inl e) \<longrightarrow> r = None) \<and>
              (\<forall>response_data. body response = Inr response_data \<longrightarrow>
                 error response_data \<noteq> None \<longrightarrow> r = None))"
    using u r unfolding upload_audio_to_anki_def upload_audio_except_def Let_def by auto
  have c: "\<not> truthy r \<longrightarrow>
           publish_and_update W note_id word word_definition word_examples f (processed_words, tr)
             = (Inr processed_words, tr1)"
    using u r unfolding publish_and_update_def by (cases r) auto
  from u r sh a b c show ?thesis by blast
qed

text \<open>
  Claim C10 on a store that answers the upload with an error.
\<close>

theorem publish_never_raises_witness:
  "publish_and_update store_refusing 1 (lit ''cat'') (lit ''everywhere'')
       [lit ''Phones are ubiquitous.''] (lit ''cambridge-id.mp3'') ({}, [])
     = (Inr {}, [StoreMediaFile (lit ''cambridge-id.mp3'') [1, 2, 3]])"
proof -
  let ?f = "lit ''cambridge-id.mp3''"
  let ?rep = "\<lparr>result = None, error = Some (lit ''disk full'')\<rparr> :: str reply"
  let ?resp = "\<lparr>status_code = 200, body = Inr ?rep\<rparr> :: (exn + str reply) response"
  have u: "upload_audio_to_anki store_refusing ?f [] = (Inr None, [StoreMediaFile ?f [1, 2, 3]])"
    by (simp add: store_refusing_def upload_audio_to_anki_def example_world_def)
  from publish_never_raises[of store_refusing ?f "[]" 1 "lit ''cat''" "lit ''everywhere''"
      "[lit ''Phones are ubiquitous.'']" "{}"]
  obtain r tr1 where
    1: "upload_audio_to_anki store_refusing ?f [] = (Inr r, tr1)" and
    2: "\<not> truthy r \<longrightarrow>
         publish_and_update store_refusing 1 (lit ''cat'') (lit ''everywhere'')
           [lit ''Phones are ubiquitous.''] ?f ({}, []) = (Inr {}, tr1)"
    by blast
  from 1 u have "r = None" "tr1 = [StoreMediaFile ?f [1, 2, 3]]" by simp_all
  with 2 show ?thesis by simp
qed

end
